theory Spec2Isabelle
  imports Main
begin

section \<open>JavaScript strings and numbers\<close>

text \<open>
  The sources are TypeScript. A JavaScript string is a sequence of UTF-16 code units; the
  model covers the code units U+0000 .. U+00FF, one \<^typ>\<open>char\<close> each. Inside that range
  the white space of \<^verbatim>\<open>String.prototype.trim\<close>, of \<^verbatim>\<open>parseInt\<close> and of the regular
  expression class \<^verbatim>\<open>\s\<close> is TAB, LF, VT, FF, CR, SPACE and NBSP, and the line
  terminators (which \<^verbatim>\<open>.\<close> does not match) are LF and CR.
\<close>

definition whiteSpaceChars :: string where
  "whiteSpaceChars = [CHR 0x09, CHR 0x0A, CHR 0x0B, CHR 0x0C, CHR 0x0D, CHR 0x20, CHR 0xA0]"

definition isWhiteSpace :: "char \<Rightarrow> bool" where
  "isWhiteSpace c = (c \<in> set whiteSpaceChars)"

definition isLineTerminator :: "char \<Rightarrow> bool" where
  "isLineTerminator c = (c = CHR 0x0A \<or> c = CHR 0x0D)"

definition trimStart :: "string \<Rightarrow> string" where
  "trimStart s = dropWhile isWhiteSpace s"

definition trim :: "string \<Rightarrow> string" where
  "trim s = rev (dropWhile isWhiteSpace (rev (dropWhile isWhiteSpace s)))"

text \<open>\<^verbatim>\<open>s.startsWith(p)\<close> and \<^verbatim>\<open>s.includes(p)\<close>.\<close>

definition startsWith :: "string \<Rightarrow> string \<Rightarrow> bool" where
  "startsWith s p = (take (length p) s = p)"

fun includesStr :: "string \<Rightarrow> string \<Rightarrow> bool" where
  "includesStr [] p = (p = [])"
| "includesStr (c # cs) p = (startsWith (c # cs) p \<or> includesStr cs p)"

text \<open>
  \<^verbatim>\<open>toLowerCase\<close> on U+0000 .. U+00FF: the letters A-Z and the Latin-1 capitals
  U+00C0 .. U+00DE (without the multiplication sign U+00D7) move up by 0x20.
\<close>

definition upperChars :: string where
  "upperChars = ''ABCDEFGHIJKLMNOPQRSTUVWXYZ'' @
     [CHR 0xC0, CHR 0xC1, CHR 0xC2, CHR 0xC3, CHR 0xC4, CHR 0xC5, CHR 0xC6, CHR 0xC7,
      CHR 0xC8, CHR 0xC9, CHR 0xCA, CHR 0xCB, CHR 0xCC, CHR 0xCD, CHR 0xCE, CHR 0xCF,
      CHR 0xD0, CHR 0xD1, CHR 0xD2, CHR 0xD3, CHR 0xD4, CHR 0xD5, CHR 0xD6,
      CHR 0xD8, CHR 0xD9, CHR 0xDA, CHR 0xDB, CHR 0xDC, CHR 0xDD, CHR 0xDE]"

definition lowerChars :: string where
  "lowerChars = ''abcdefghijklmnopqrstuvwxyz'' @
     [CHR 0xE0, CHR 0xE1, CHR 0xE2, CHR 0xE3, CHR 0xE4, CHR 0xE5, CHR 0xE6, CHR 0xE7,
      CHR 0xE8, CHR 0xE9, CHR 0xEA, CHR 0xEB, CHR 0xEC, CHR 0xED, CHR 0xEE, CHR 0xEF,
      CHR 0xF0, CHR 0xF1, CHR 0xF2, CHR 0xF3, CHR 0xF4, CHR 0xF5, CHR 0xF6,
      CHR 0xF8, CHR 0xF9, CHR 0xFA, CHR 0xFB, CHR 0xFC, CHR 0xFD, CHR 0xFE]"

definition toLowerChar :: "char \<Rightarrow> char" where
  "toLowerChar c = (case map_of (zip upperChars lowerChars) c of Some d \<Rightarrow> d | None \<Rightarrow> c)"

definition toLowerCase :: "string \<Rightarrow> string" where
  "toLowerCase s = map toLowerChar s"

text \<open>
  \<^verbatim>\<open>content.split(/\r?\n/)\<close>: a line ends at LF or at CR LF; a CR that is not followed by
  LF stays inside its line. The result always has at least one element.
\<close>

fun consHead :: "char \<Rightarrow> string list \<Rightarrow> string list" where
  "consHead c [] = [[c]]"
| "consHead c (l # ls) = (c # l) # ls"

fun splitLines :: "string \<Rightarrow> string list" where
  "splitLines [] = [[]]"
| "splitLines [c] = (if c = CHR 0x0A then [[], []] else [[c]])"
| "splitLines (c # d # cs) =
     (if c = CHR 0x0D \<and> d = CHR 0x0A then [] # splitLines cs
      else if c = CHR 0x0A then [] # splitLines (d # cs)
      else consHead c (splitLines (d # cs)))"

text \<open>\<^verbatim>\<open>raw.split(',')\<close>, for any one separator character.\<close>

fun splitChar :: "char \<Rightarrow> string \<Rightarrow> string list" where
  "splitChar sep [] = [[]]"
| "splitChar sep (c # cs) =
     (if c = sep then [] # splitChar sep cs else consHead c (splitChar sep cs))"

subsection \<open>Numbers\<close>

text \<open>
  A JavaScript number is an IEEE-754 double. The model has the integer-valued doubles (by
  their exact value), NaN and the two infinities: \<^verbatim>\<open>parseInt\<close> returns nothing else.
  Fractional numbers are not represented.
\<close>

datatype jsnumber = IntNum int | NaN | PosInfinity | NegInfinity

definition digitChars :: string where
  "digitChars = ''0123456789''"

definition isDigit :: "char \<Rightarrow> bool" where
  "isDigit c = (c \<in> set digitChars)"

definition digitVal :: "char \<Rightarrow> nat" where
  "digitVal c =
     (case map_of (zip digitChars [0, 1, 2, 3, 4, 5, 6, 7, 8, 9]) c of Some d \<Rightarrow> d | None \<Rightarrow> 0)"

definition digitsValue :: "string \<Rightarrow> nat" where
  "digitsValue z = foldl (\<lambda>a c. 10 * a + digitVal c) 0 z"

function natDigits :: "nat \<Rightarrow> string" where
  "natDigits n = (if n < 10 then [digitChars ! n] else natDigits (n div 10) @ [digitChars ! (n mod 10)])"
  by pat_completeness auto
termination
  by (relation "measure id") auto

function bitLength :: "nat \<Rightarrow> nat" where
  "bitLength n = (if n = 0 then 0 else Suc (bitLength (n div 2)))"
  by pat_completeness auto
termination
  by (relation "measure id") auto

text \<open>Both equations recurse under a test of their argument; they are unfolded on demand.\<close>

declare natDigits.simps [simp del]

declare bitLength.simps [simp del]

text \<open>
  The double nearest to a natural number, ties to the even significand; \<open>None\<close> is the
  overflow to Infinity. Below \<open>2 ^ 53\<close> every natural number is a double.
\<close>

definition toDouble :: "nat \<Rightarrow> nat option" where
  "toDouble n =
     (if n < 2 ^ 53 then Some n
      else
        (let e = bitLength n - 53;
             q = n div 2 ^ e;
             r = n mod 2 ^ e;
             h = 2 ^ (e - 1);
             q' = (if h < r \<or> (r = h \<and> odd q) then q + 1 else q)
         in if 2 ^ 1024 \<le> q' * 2 ^ e then None else Some (q' * 2 ^ e)))"

text \<open>
  \<^verbatim>\<open>parseInt(raw, 10)\<close>: leading white space is skipped, one sign is read, then the longest
  run of decimal digits; no digit gives NaN. (For more than 20 significant digits the
  language lets an implementation approximate; the model takes the exact value.)
\<close>

definition parseInt10 :: "string \<Rightarrow> jsnumber" where
  "parseInt10 raw =
     (let s = trimStart raw;
          neg = (s \<noteq> [] \<and> hd s = CHR ''-'');
          s' = (if s \<noteq> [] \<and> (hd s = CHR ''-'' \<or> hd s = CHR ''+'') then tl s else s);
          z = takeWhile isDigit s'
      in if z = [] then NaN
         else (case toDouble (digitsValue z) of
                 None \<Rightarrow> (if neg then NegInfinity else PosInfinity)
               | Some d \<Rightarrow> IntNum (if neg then - int d else int d)))"

text \<open>
  \<^verbatim>\<open>Number.prototype.toString\<close> for these numbers. Up to \<open>2 ^ 53\<close> it is the decimal
  numeral. Above, it prints the decimal with the fewest significant digits that still
  rounds to the same double (the nearest such one), in positional notation below
  \<open>10 ^ 21\<close> and in exponent notation from there on.
\<close>

fun shortestDecimal :: "nat \<Rightarrow> nat \<Rightarrow> nat" where
  "shortestDecimal x 0 = x"
| "shortestDecimal x (Suc j) =
     (let p = 10 ^ Suc j;
          lo = (x div p) * p;
          hi = lo + p;
          okLo = (0 < lo \<and> toDouble lo = Some x);
          okHi = (toDouble hi = Some x)
      in if okLo \<and> okHi then
           (if x - lo < hi - x then lo
            else if hi - x < x - lo then hi
            else if even (x div p) then lo else hi)
         else if okLo then lo
         else if okHi then hi
         else shortestDecimal x j)"

definition stripTrailingZeros :: "string \<Rightarrow> string" where
  "stripTrailingZeros ds = rev (dropWhile (\<lambda>c. c = CHR ''0'') (rev ds))"

definition exponentForm :: "nat \<Rightarrow> string" where
  "exponentForm v =
     (let ds = natDigits v;
          s = stripTrailingZeros ds
      in hd s # (if tl s = [] then [] else CHR ''.'' # tl s) @ ''e+'' @ natDigits (length ds - 1))"

definition natToString :: "nat \<Rightarrow> string" where
  "natToString x =
     (if x < 2 ^ 53 then natDigits x
      else (let v = shortestDecimal x (length (natDigits x))
            in if v < 10 ^ 21 then natDigits v else exponentForm v))"

fun numberToString :: "jsnumber \<Rightarrow> string" where
  "numberToString (IntNum i) = (if i < 0 then CHR ''-'' # natToString (nat (- i)) else natToString (nat i))"
| "numberToString NaN = ''NaN''"
| "numberToString PosInfinity = ''Infinity''"
| "numberToString NegInfinity = ''-Infinity''"

fun isNaN :: "jsnumber \<Rightarrow> bool" where
  "isNaN NaN = True"
| "isNaN _ = False"

text \<open>\<^verbatim>\<open>x < k\<close> and \<^verbatim>\<open>x > k\<close> against an integer constant; every comparison with NaN is false.\<close>

fun numLess :: "jsnumber \<Rightarrow> int \<Rightarrow> bool" where
  "numLess (IntNum i) k = (i < k)"
| "numLess NegInfinity k = True"
| "numLess _ k = False"

fun numGreater :: "jsnumber \<Rightarrow> int \<Rightarrow> bool" where
  "numGreater (IntNum i) k = (k < i)"
| "numGreater PosInfinity k = True"
| "numGreater _ k = False"

text \<open>\<^verbatim>\<open>Math.min(k, x)\<close> and \<^verbatim>\<open>Math.max(k, x)\<close> with an integer constant \<open>k\<close>.\<close>

fun mathMin :: "int \<Rightarrow> jsnumber \<Rightarrow> jsnumber" where
  "mathMin k (IntNum i) = IntNum (min k i)"
| "mathMin k NaN = NaN"
| "mathMin k PosInfinity = IntNum k"
| "mathMin k NegInfinity = NegInfinity"

fun mathMax :: "int \<Rightarrow> jsnumber \<Rightarrow> jsnumber" where
  "mathMax k (IntNum i) = IntNum (max k i)"
| "mathMax k NaN = NaN"
| "mathMax k PosInfinity = PosInfinity"
| "mathMax k NegInfinity = IntNum k"

section \<open>The parser (\<^verbatim>\<open>parsers/typescript/src/parser.ts\<close>, \<^verbatim>\<open>types.ts\<close>)\<close>

subsection \<open>Types\<close>

record IdentitySection =
  site :: string
  contact :: "string option"
  lastUpdated :: "string option"
  specVersion :: "string option"

record TrustRequirements =
  minimumTrustLevel :: jsnumber
  authentication :: string
  authenticationMethods :: "string list option"

record RateLimits =
  requestsPerMinute :: "jsnumber option"
  requestsPerHour :: "jsnumber option"
  concurrentSessions :: "jsnumber option"

text \<open>\<^verbatim>\<open>Partial<DataHandling>\<close>: every field may be absent.\<close>

record DataHandling =
  personalDataCollection :: "string option"
  dataRetention :: "string option"
  thirdPartySharing :: "string option"
  gdprCompliance :: "bool option"

record Restrictions =
  disallowedPaths :: "string list"
  requireHumanApproval :: "string list"
  readOnlyPaths :: "string list"

record AgentIdentification =
  requireAgentHeader :: bool
  agentHeaderName :: "string option"
  requireDisclosure :: bool

text \<open>\<^verbatim>\<open>allowedActions: Record<string, boolean>\<close> is the map of the object's own properties.\<close>

record AgentsPolicy =
  identity :: IdentitySection
  trustRequirements :: TrustRequirements
  allowedActions :: "string \<rightharpoonup> bool"
  rateLimits :: RateLimits
  dataHandling :: DataHandling
  restrictions :: Restrictions
  agentIdentification :: AgentIdentification

record ParseError =
  line :: "nat option"
  "section" :: string
  message :: string

record ParseWarning =
  "section" :: string
  message :: string

record ParseResult =
  success :: bool
  policy :: "AgentsPolicy option"
  errors :: "ParseError list"
  warnings :: "ParseWarning list"

text \<open>
  \<^verbatim>\<open>SectionData = Map<string, string>\<close>: the entries in insertion order, every key once.
  \<^verbatim>\<open>Map.prototype.set\<close> on a key that is present replaces the value in place.
\<close>

type_synonym SectionData = "(string \<times> string) list"

fun dataSet :: "string \<Rightarrow> string \<Rightarrow> SectionData \<Rightarrow> SectionData" where
  "dataSet k v [] = [(k, v)]"
| "dataSet k v ((k', v') # rest) =
     (if k' = k then (k, v) # rest else (k', v') # dataSet k v rest)"

definition dataGet :: "SectionData \<Rightarrow> string \<Rightarrow> string option" where
  "dataGet data k = map_of data k"

definition quoted :: "string \<Rightarrow> string" where
  "quoted s = CHR 0x22 # s @ [CHR 0x22]"

definition warning :: "string \<Rightarrow> string \<Rightarrow> ParseWarning" where
  "warning sec msg = \<lparr>ParseWarning.section = sec, ParseWarning.message = msg\<rparr>"

subsection \<open>extractSections and parseKeyValueLines\<close>

text \<open>
  One step of the loop of \<^verbatim>\<open>parseKeyValueLines\<close>: the line is skipped when it is blank, a
  comment, not a bullet, without a colon, or when its key is empty.
\<close>

definition parseKeyValueLine :: "SectionData \<Rightarrow> string \<Rightarrow> SectionData" where
  "parseKeyValueLine data ln =
     (let trimmed = trim ln in
      if trimmed = [] \<or> startsWith trimmed ''#'' then data
      else if \<not> startsWith trimmed ''- '' then data
      else
        (let withoutBullet = drop 2 trimmed in
         if CHR '':'' \<notin> set withoutBullet then data
         else
           (let key = toLowerCase (trim (takeWhile (\<lambda>c. c \<noteq> CHR '':'') withoutBullet));
                val = trim (tl (dropWhile (\<lambda>c. c \<noteq> CHR '':'') withoutBullet))
            in if key \<noteq> [] then dataSet key val data else data)))"

definition parseKeyValueLines :: "string list \<Rightarrow> SectionData" where
  "parseKeyValueLines lns = foldl parseKeyValueLine [] lns"

text \<open>
  \<^verbatim>\<open>line.match(/^##\s+(.+)$/)\<close>, returning capture group 1. After \<^verbatim>\<open>##\<close> the greedy \<^verbatim>\<open>\s+\<close>
  takes the whole run of white space; the rest must be non-empty and free of line
  terminators. When nothing follows the white space, \<^verbatim>\<open>\s+\<close> gives back its last
  character to \<^verbatim>\<open>.+\<close>, which succeeds when that character is not a line terminator.
\<close>

definition sectionMatch :: "string \<Rightarrow> string option" where
  "sectionMatch ln =
     (if \<not> startsWith ln ''##'' then None
      else
        (let rest = drop 2 ln;
             ws = takeWhile isWhiteSpace rest;
             body = dropWhile isWhiteSpace rest
         in if ws = [] then None
            else if body \<noteq> [] then
              (if list_ex isLineTerminator body then None else Some body)
            else if 2 \<le> length ws \<and> \<not> isLineTerminator (last ws) then Some [last ws]
            else None))"

record ExtractState =
  result :: "string \<rightharpoonup> SectionData"
  currentSectionName :: "string option"
  currentSectionLines :: "string list"

definition flushSection :: "ExtractState \<Rightarrow> ExtractState" where
  "flushSection st =
     (case currentSectionName st of
        None \<Rightarrow> st
      | Some name \<Rightarrow>
          st\<lparr>result := (result st)(name \<mapsto> parseKeyValueLines (currentSectionLines st)),
             currentSectionLines := []\<rparr>)"

definition extractLine :: "ExtractState \<Rightarrow> string \<Rightarrow> ExtractState" where
  "extractLine st ln =
     (case sectionMatch ln of
        Some g \<Rightarrow>
          (flushSection st)\<lparr>currentSectionName := Some (toLowerCase (trim g)),
                             currentSectionLines := []\<rparr>
      | None \<Rightarrow>
          (if currentSectionName st \<noteq> None
           then st\<lparr>currentSectionLines := currentSectionLines st @ [ln]\<rparr>
           else st))"

definition extractSections :: "string \<Rightarrow> (string \<rightharpoonup> SectionData)" where
  "extractSections content =
     result (flushSection
       (foldl extractLine
          \<lparr>result = Map.empty, currentSectionName = None, currentSectionLines = []\<rparr>
          (splitLines content)))"

subsection \<open>The coercers\<close>

definition parseBooleanValue ::
  "string \<Rightarrow> string \<Rightarrow> string \<Rightarrow> ParseWarning list \<Rightarrow> bool option \<times> ParseWarning list" where
  "parseBooleanValue raw sec key ws =
     (let normalized = trim (toLowerCase raw) in
      if normalized \<in> set [''true'', ''yes'', ''1'', ''on''] then (Some True, ws)
      else if normalized \<in> set [''false'', ''no'', ''0'', ''off''] then (Some False, ws)
      else (None, ws @ [warning sec
              (''Unrecognized boolean value '' @ quoted raw @ '' for key '' @ quoted key @
               ''. Expected: true/false/yes/no/1/0/on/off.'')]))"

definition parseIntegerValue ::
  "string \<Rightarrow> string \<Rightarrow> string \<Rightarrow> ParseWarning list \<Rightarrow> jsnumber option \<times> ParseWarning list" where
  "parseIntegerValue raw sec key ws =
     (let parsed = parseInt10 raw in
      if isNaN parsed \<or> numberToString parsed \<noteq> trim raw
      then (None, ws @ [warning sec
              (''Invalid integer value '' @ quoted raw @ '' for key '' @ quoted key @ ''.'')])
      else (Some parsed, ws))"

definition parseArrayValue :: "string \<Rightarrow> string list" where
  "parseArrayValue raw = filter (\<lambda>item. item \<noteq> []) (map trim (splitChar (CHR '','') raw))"

subsection \<open>The sections\<close>

definition parseError :: "string \<Rightarrow> string \<Rightarrow> ParseError" where
  "parseError sec msg = \<lparr>line = None, ParseError.section = sec, ParseError.message = msg\<rparr>"

text \<open>\<^verbatim>\<open>if (x) field = x\<close> on an optional string: the empty string is falsy.\<close>

fun ifNonEmpty :: "string option \<Rightarrow> string option" where
  "ifNonEmpty None = None"
| "ifNonEmpty (Some s) = (if s = [] then None else Some s)"

definition knownIdentityKeys :: "string list" where
  "knownIdentityKeys = [''site'', ''contact'', ''last-updated'', ''spec-version'']"

definition parseIdentitySection ::
  "SectionData \<Rightarrow> ParseWarning list \<Rightarrow> IdentitySection option \<times> ParseWarning list" where
  "parseIdentitySection data ws =
     (case dataGet data ''site'' of
        None \<Rightarrow> (None, ws)
      | Some s \<Rightarrow>
          if s = [] \<or> trim s = [] then (None, ws)
          else
            (Some \<lparr>site = trim s,
                   contact = ifNonEmpty (dataGet data ''contact''),
                   lastUpdated = ifNonEmpty (dataGet data ''last-updated''),
                   specVersion = ifNonEmpty (dataGet data ''spec-version'')\<rparr>,
             ws @ map (\<lambda>key. warning ''identity''
                         (''Unrecognized key '' @ quoted key @ '' in Identity section.''))
                    (filter (\<lambda>key. key \<notin> set knownIdentityKeys \<and> \<not> startsWith key ''x-'')
                       (map fst data))))"

definition defaultTrustRequirements :: TrustRequirements where
  "defaultTrustRequirements =
     \<lparr>minimumTrustLevel = IntNum 0, authentication = ''none'', authenticationMethods = None\<rparr>"

definition parseTrustLevel ::
  "SectionData \<Rightarrow> ParseWarning list \<Rightarrow> jsnumber \<times> ParseWarning list" where
  "parseTrustLevel data ws =
     (case dataGet data ''minimum-trust-level'' of
        None \<Rightarrow> (minimumTrustLevel defaultTrustRequirements, ws)
      | Some rawLevel \<Rightarrow>
          (case parseIntegerValue rawLevel ''trust requirements'' ''minimum-trust-level'' ws of
             (None, ws') \<Rightarrow> (minimumTrustLevel defaultTrustRequirements, ws')
           | (Some level, ws') \<Rightarrow>
               if numLess level 0 \<or> numGreater level 5
               then (mathMax 0 (mathMin 5 level),
                     ws' @ [warning ''trust requirements''
                       (''Trust level '' @ numberToString level @
                        '' is outside the valid 0-5 range. Clamping to nearest valid value.'')])
               else (level, ws')))"

definition parseAuthentication ::
  "SectionData \<Rightarrow> ParseWarning list \<Rightarrow> string \<times> ParseWarning list" where
  "parseAuthentication data ws =
     (case dataGet data ''authentication'' of
        None \<Rightarrow> (authentication defaultTrustRequirements, ws)
      | Some rawAuth \<Rightarrow>
          (let normalized = trim (toLowerCase rawAuth) in
           if normalized = ''required'' \<or> normalized = ''optional'' \<or> normalized = ''none''
           then (normalized, ws)
           else (authentication defaultTrustRequirements,
                 ws @ [warning ''trust requirements''
                   (''Unrecognized authentication value '' @ quoted rawAuth @
                    ''. Expected: required/optional/none.'')])))"

definition parseTrustRequirements ::
  "SectionData option \<Rightarrow> ParseWarning list \<Rightarrow> TrustRequirements \<times> ParseWarning list" where
  "parseTrustRequirements dataOpt ws =
     (case dataOpt of
        None \<Rightarrow> (defaultTrustRequirements, ws)
      | Some data \<Rightarrow>
          (case parseTrustLevel data ws of (level, ws1) \<Rightarrow>
           case parseAuthentication data ws1 of (auth, ws2) \<Rightarrow>
             (\<lparr>minimumTrustLevel = level, authentication = auth,
               authenticationMethods =
                 map_option parseArrayValue (dataGet data ''authentication-methods'')\<rparr>,
              ws2)))"

definition defaultActions :: "string \<rightharpoonup> bool" where
  "defaultActions = map_of
     [(''readContent'', True), (''submitForms'', False), (''makePurchases'', False),
      (''modifyAccount'', False), (''accessApi'', False), (''downloadFiles'', False),
      (''uploadFiles'', False), (''sendMessages'', False), (''deleteData'', False),
      (''createContent'', False)]"

definition keyMap :: "(string \<times> string) list" where
  "keyMap =
     [(''read-content'', ''readContent''), (''submit-forms'', ''submitForms''),
      (''make-purchases'', ''makePurchases''), (''modify-account'', ''modifyAccount''),
      (''access-api'', ''accessApi''), (''download-files'', ''downloadFiles''),
      (''upload-files'', ''uploadFiles''), (''send-messages'', ''sendMessages''),
      (''delete-data'', ''deleteData''), (''create-content'', ''createContent'')]"

text \<open>
  \<^verbatim>\<open>keyMap\<close> is an object literal, so \<^verbatim>\<open>keyMap[rawKey]\<close> also finds what the object
  inherits from \<^verbatim>\<open>Object.prototype\<close>. Raw keys are lower case, and two inherited names are:
  \<^verbatim>\<open>constructor\<close> (the function \<^verbatim>\<open>Object\<close>) and \<^verbatim>\<open>__proto__\<close> (the prototype object).
  Neither is nullish, so \<^verbatim>\<open>??\<close> keeps it, and \<^verbatim>\<open>result[camelKey] = ...\<close> turns it into a
  property name with \<^verbatim>\<open>String\<close>: the source text of the function as Node.js prints it,
  and \<^verbatim>\<open>[object Object]\<close>.
\<close>

definition inheritedKeys :: "(string \<times> string) list" where
  "inheritedKeys =
     [(''constructor'', ''function Object() { [native code] }''),
      (''__proto__'', ''[object Object]'')]"

definition lowerAZ :: string where
  "lowerAZ = ''abcdefghijklmnopqrstuvwxyz''"

definition upperAZ :: string where
  "upperAZ = ''ABCDEFGHIJKLMNOPQRSTUVWXYZ''"

definition toUpperAZ :: "char \<Rightarrow> char" where
  "toUpperAZ c = (case map_of (zip lowerAZ upperAZ) c of Some d \<Rightarrow> d | None \<Rightarrow> c)"

text \<open>\<^verbatim>\<open>kebab.replace(/-([a-z])/g, (_, char) => char.toUpperCase())\<close>.\<close>

fun kebabToCamel :: "string \<Rightarrow> string" where
  "kebabToCamel (c # d # cs) =
     (if c = CHR ''-'' \<and> d \<in> set lowerAZ then toUpperAZ d # kebabToCamel cs
      else c # kebabToCamel (d # cs))"
| "kebabToCamel cs = cs"

definition camelKeyOf :: "string \<Rightarrow> string" where
  "camelKeyOf rawKey =
     (case map_of (keyMap @ inheritedKeys) rawKey of
        Some camelKey \<Rightarrow> camelKey
      | None \<Rightarrow> kebabToCamel rawKey)"

fun allowedActionsStep ::
  "(string \<rightharpoonup> bool) \<times> ParseWarning list \<Rightarrow> string \<times> string \<Rightarrow>
   (string \<rightharpoonup> bool) \<times> ParseWarning list" where
  "allowedActionsStep (res, ws) (rawKey, rawValue) =
     (case parseBooleanValue rawValue ''allowed actions'' rawKey ws of
        (None, ws') \<Rightarrow> (res, ws')
      | (Some boolValue, ws') \<Rightarrow> (res(camelKeyOf rawKey \<mapsto> boolValue), ws'))"

definition parseAllowedActions ::
  "SectionData option \<Rightarrow> ParseWarning list \<Rightarrow> (string \<rightharpoonup> bool) \<times> ParseWarning list" where
  "parseAllowedActions dataOpt ws =
     (case dataOpt of
        None \<Rightarrow> (defaultActions, ws)
      | Some data \<Rightarrow> foldl allowedActionsStep (defaultActions, ws) data)"

definition parseRateLimit ::
  "SectionData \<Rightarrow> string \<Rightarrow> ParseWarning list \<Rightarrow> jsnumber option \<times> ParseWarning list" where
  "parseRateLimit data key ws =
     (case dataGet data key of
        None \<Rightarrow> (None, ws)
      | Some raw \<Rightarrow> parseIntegerValue raw ''rate limits'' key ws)"

definition parseRateLimits ::
  "SectionData option \<Rightarrow> ParseWarning list \<Rightarrow> RateLimits \<times> ParseWarning list" where
  "parseRateLimits dataOpt ws =
     (case dataOpt of
        None \<Rightarrow>
          (\<lparr>requestsPerMinute = None, requestsPerHour = None, concurrentSessions = None\<rparr>, ws)
      | Some data \<Rightarrow>
          (case parseRateLimit data ''requests-per-minute'' ws of (rpm, ws1) \<Rightarrow>
           case parseRateLimit data ''requests-per-hour'' ws1 of (rph, ws2) \<Rightarrow>
           case parseRateLimit data ''concurrent-sessions'' ws2 of (conc, ws3) \<Rightarrow>
             (\<lparr>requestsPerMinute = rpm, requestsPerHour = rph, concurrentSessions = conc\<rparr>,
              ws3)))"

definition parseEnum ::
  "SectionData \<Rightarrow> string \<Rightarrow> string list \<Rightarrow> string \<Rightarrow> ParseWarning list \<Rightarrow>
   string option \<times> ParseWarning list" where
  "parseEnum data key validValues expected ws =
     (case dataGet data key of
        None \<Rightarrow> (None, ws)
      | Some raw \<Rightarrow>
          (let normalized = trim (toLowerCase raw) in
           if normalized \<in> set validValues then (Some normalized, ws)
           else (None, ws @ [warning ''data handling''
                   (''Unrecognized '' @ key @ '' value '' @ quoted raw @
                    ''. Expected: '' @ expected @ ''.'')])))"

definition parseBooleanField ::
  "SectionData \<Rightarrow> string \<Rightarrow> string \<Rightarrow> ParseWarning list \<Rightarrow> bool option \<times> ParseWarning list" where
  "parseBooleanField data sec key ws =
     (case dataGet data key of
        None \<Rightarrow> (None, ws)
      | Some raw \<Rightarrow> parseBooleanValue raw sec key ws)"

definition parseDataHandling ::
  "SectionData option \<Rightarrow> ParseWarning list \<Rightarrow> DataHandling \<times> ParseWarning list" where
  "parseDataHandling dataOpt ws =
     (case dataOpt of
        None \<Rightarrow>
          (\<lparr>personalDataCollection = None, dataRetention = None, thirdPartySharing = None,
            gdprCompliance = None\<rparr>, ws)
      | Some data \<Rightarrow>
          (case parseEnum data ''personal-data-collection''
                  [''none'', ''minimal'', ''standard'', ''extensive'']
                  ''none/minimal/standard/extensive'' ws of (collection, ws1) \<Rightarrow>
           case parseEnum data ''data-retention''
                  [''none'', ''session-only'', ''30-days'', ''1-year'', ''indefinite'']
                  ''none/session-only/30-days/1-year/indefinite'' ws1 of (retention, ws2) \<Rightarrow>
           case parseEnum data ''third-party-sharing''
                  [''none'', ''anonymized'', ''with-consent'', ''unrestricted'']
                  ''none/anonymized/with-consent/unrestricted'' ws2 of (sharing, ws3) \<Rightarrow>
           case parseBooleanField data ''data handling'' ''gdpr-compliance'' ws3 of
             (gdpr, ws4) \<Rightarrow>
             (\<lparr>personalDataCollection = collection, dataRetention = retention,
               thirdPartySharing = sharing, gdprCompliance = gdpr\<rparr>, ws4)))"

definition parsePaths :: "string option \<Rightarrow> string list" where
  "parsePaths raw = (case ifNonEmpty raw of None \<Rightarrow> [] | Some r \<Rightarrow> parseArrayValue r)"

definition parseRestrictions ::
  "SectionData option \<Rightarrow> ParseWarning list \<Rightarrow> Restrictions \<times> ParseWarning list" where
  "parseRestrictions dataOpt ws =
     (case dataOpt of
        None \<Rightarrow> (\<lparr>disallowedPaths = [], requireHumanApproval = [], readOnlyPaths = []\<rparr>, ws)
      | Some data \<Rightarrow>
          (let r = \<lparr>disallowedPaths = parsePaths (dataGet data ''disallowed-paths''),
                    requireHumanApproval = parsePaths (dataGet data ''require-human-approval''),
                    readOnlyPaths = parsePaths (dataGet data ''read-only-paths'')\<rparr>;
               allPaths = disallowedPaths r @ requireHumanApproval r @ readOnlyPaths r
           in (r, ws @ map (\<lambda>path. warning ''restrictions''
                              (''Path pattern '' @ quoted path @ '' does not start with '' @
                               quoted ''/'' @ ''. Path patterns should be absolute paths.''))
                         (filter (\<lambda>path. \<not> startsWith path ''/'') allPaths))))"

definition defaultAgentIdentification :: AgentIdentification where
  "defaultAgentIdentification =
     \<lparr>requireAgentHeader = False, agentHeaderName = None, requireDisclosure = False\<rparr>"

definition parseAgentIdentification ::
  "SectionData option \<Rightarrow> ParseWarning list \<Rightarrow> AgentIdentification \<times> ParseWarning list" where
  "parseAgentIdentification dataOpt ws =
     (case dataOpt of
        None \<Rightarrow> (defaultAgentIdentification, ws)
      | Some data \<Rightarrow>
          (case parseBooleanField data ''agent identification'' ''require-agent-header'' ws of
             (hdr, ws1) \<Rightarrow>
           case parseBooleanField data ''agent identification'' ''require-disclosure'' ws1 of
             (disc, ws2) \<Rightarrow>
             (\<lparr>requireAgentHeader =
                 (case hdr of None \<Rightarrow> requireAgentHeader defaultAgentIdentification
                  | Some v \<Rightarrow> v),
               agentHeaderName = ifNonEmpty (dataGet data ''agent-header-name''),
               requireDisclosure =
                 (case disc of None \<Rightarrow> requireDisclosure defaultAgentIdentification
                  | Some v \<Rightarrow> v)\<rparr>,
              ws2)))"

subsection \<open>parse\<close>

definition assemble ::
  "(string \<rightharpoonup> SectionData) \<Rightarrow> IdentitySection \<Rightarrow> ParseWarning list \<Rightarrow> ParseResult" where
  "assemble sections identityResult ws0 =
     (case parseTrustRequirements (sections ''trust requirements'') ws0 of (tr, ws1) \<Rightarrow>
      case parseAllowedActions (sections ''allowed actions'') ws1 of (aa, ws2) \<Rightarrow>
      case parseRateLimits (sections ''rate limits'') ws2 of (rl, ws3) \<Rightarrow>
      case parseDataHandling (sections ''data handling'') ws3 of (dh, ws4) \<Rightarrow>
      case parseRestrictions (sections ''restrictions'') ws4 of (rs, ws5) \<Rightarrow>
      case parseAgentIdentification (sections ''agent identification'') ws5 of (ai, ws6) \<Rightarrow>
        (let errs = [] in
         \<lparr>success = (errs = []),
          policy = Some \<lparr>identity = identityResult, trustRequirements = tr,
                         allowedActions = aa, rateLimits = rl, dataHandling = dh,
                         restrictions = rs, agentIdentification = ai\<rparr>,
          errors = errs,
          warnings = ws6\<rparr>))"

definition parse :: "string \<Rightarrow> ParseResult" where
  "parse content =
     (if content = [] \<or> trim content = [] then
        \<lparr>success = False, policy = None,
         errors = [parseError ''file'' ''File is empty.''], warnings = []\<rparr>
      else
        (let sections = extractSections content in
         case sections ''identity'' of
           None \<Rightarrow>
             \<lparr>success = False, policy = None,
              errors = [parseError ''identity''
                ''Missing required ## Identity section. An AGENTS.md file must contain an Identity section.''],
              warnings = []\<rparr>
         | Some identityData \<Rightarrow>
             (case parseIdentitySection identityData [] of
                (None, ws) \<Rightarrow>
                  \<lparr>success = False, policy = None,
                   errors = [parseError ''identity''
                     (''The Identity section is missing the required '' @ quoted ''site'' @
                      '' key.'')],
                   warnings = ws\<rparr>
              | (Some identityResult, ws) \<Rightarrow> assemble sections identityResult ws)))"

section \<open>The validator (\<^verbatim>\<open>validator.ts\<close>)\<close>

text \<open>
  \<^verbatim>\<open>validate\<close> takes an \<^verbatim>\<open>AgentsPolicy\<close>. For a value of that type its guards on the
  presence of a section and on the run-time type of a field (\<^verbatim>\<open>Array.isArray\<close>,
  \<^verbatim>\<open>typeof\<close>) never fire, so they have no branch in the model.
\<close>

record ValidationResult =
  valid :: bool
  errors :: "string list"

text \<open>
  \<^verbatim>\<open>/^\d{4}-\d{2}-\d{2}(T\d{2}:\d{2}:\d{2}(\.\d+)?(Z|[+-]\d{2}:\d{2})?)?$/\<close>, read from
  the right: the time zone, the fraction before it, the time before that.
\<close>

definition matchTimeZone :: "string \<Rightarrow> bool" where
  "matchTimeZone r =
     (r = [] \<or> r = ''Z'' \<or>
      (length r = 6 \<and> (r ! 0 = CHR ''+'' \<or> r ! 0 = CHR ''-'') \<and> isDigit (r ! 1) \<and>
       isDigit (r ! 2) \<and> r ! 3 = CHR '':'' \<and> isDigit (r ! 4) \<and> isDigit (r ! 5)))"

definition matchFraction :: "string \<Rightarrow> bool" where
  "matchFraction r =
     (matchTimeZone r \<or>
      (r \<noteq> [] \<and> hd r = CHR ''.'' \<and> takeWhile isDigit (tl r) \<noteq> [] \<and>
       matchTimeZone (dropWhile isDigit (tl r))))"

definition matchTime :: "string \<Rightarrow> bool" where
  "matchTime r =
     (r = [] \<or>
      (9 \<le> length r \<and> r ! 0 = CHR ''T'' \<and> isDigit (r ! 1) \<and> isDigit (r ! 2) \<and>
       r ! 3 = CHR '':'' \<and> isDigit (r ! 4) \<and> isDigit (r ! 5) \<and> r ! 6 = CHR '':'' \<and>
       isDigit (r ! 7) \<and> isDigit (r ! 8) \<and> matchFraction (drop 9 r)))"

definition isoDatePattern :: "string \<Rightarrow> bool" where
  "isoDatePattern s =
     (10 \<le> length s \<and> isDigit (s ! 0) \<and> isDigit (s ! 1) \<and> isDigit (s ! 2) \<and>
      isDigit (s ! 3) \<and> s ! 4 = CHR ''-'' \<and> isDigit (s ! 5) \<and> isDigit (s ! 6) \<and>
      s ! 7 = CHR ''-'' \<and> isDigit (s ! 8) \<and> isDigit (s ! 9) \<and> matchTime (drop 10 s))"

definition siteErrors :: "string \<Rightarrow> string list" where
  "siteErrors s =
     (if s = [] \<or> trim s = [] then [''Identity.site is required and must not be empty.'']
      else
        (if includesStr s ''://''
         then [''Identity.site '' @ quoted s @
               '' must be a domain name only (without protocol, e.g., '' @
               quoted ''example.com'' @ '').'']
         else []) @
        (if includesStr s '' ''
         then [''Identity.site '' @ quoted s @ '' must not contain spaces.'']
         else []))"

definition identityErrors :: "IdentitySection \<Rightarrow> string list" where
  "identityErrors i =
     siteErrors (site i) @
     (case lastUpdated i of
        None \<Rightarrow> []
      | Some d \<Rightarrow>
          if \<not> isoDatePattern d
          then [''Identity.lastUpdated '' @ quoted d @ '' is not a valid ISO 8601 date.'']
          else [])"

text \<open>\<^verbatim>\<open>Number.isInteger\<close>.\<close>

fun isInteger :: "jsnumber \<Rightarrow> bool" where
  "isInteger (IntNum i) = True"
| "isInteger _ = False"

definition validAuthValues :: "string list" where
  "validAuthValues = [''required'', ''optional'', ''none'']"

text \<open>\<^verbatim>\<open>values.join(', ')\<close>.\<close>

fun joinComma :: "string list \<Rightarrow> string" where
  "joinComma [] = []"
| "joinComma [x] = x"
| "joinComma (x # y # ys) = x @ '', '' @ joinComma (y # ys)"

definition trustErrors :: "TrustRequirements \<Rightarrow> string list" where
  "trustErrors t =
     (let level = minimumTrustLevel t in
      if \<not> isInteger level \<or> numLess level 0 \<or> numGreater level 5
      then [''TrustRequirements.minimumTrustLevel must be an integer between 0 and 5. Got: '' @
            numberToString level @ ''.'']
      else []) @
     (if authentication t \<notin> set validAuthValues
      then [''TrustRequirements.authentication must be one of: '' @ joinComma validAuthValues @
            ''. Got: '' @ quoted (authentication t) @ ''.'']
      else []) @
     (case authenticationMethods t of
        None \<Rightarrow> []
      | Some methods \<Rightarrow>
          if list_ex (\<lambda>m. trim m = []) methods
          then [''TrustRequirements.authenticationMethods must contain non-empty strings.'']
          else [])"

definition rateLimitError :: "string \<Rightarrow> jsnumber option \<Rightarrow> string list" where
  "rateLimitError field v =
     (case v of
        None \<Rightarrow> []
      | Some n \<Rightarrow>
          if \<not> isInteger n \<or> numLess n 0
          then [''RateLimits.'' @ field @ '' must be a non-negative integer. Got: '' @
                numberToString n @ ''.'']
          else [])"

definition rateLimitErrors :: "RateLimits \<Rightarrow> string list" where
  "rateLimitErrors r =
     rateLimitError ''requestsPerMinute'' (requestsPerMinute r) @
     rateLimitError ''requestsPerHour'' (requestsPerHour r) @
     rateLimitError ''concurrentSessions'' (concurrentSessions r)"

definition enumError :: "string \<Rightarrow> string list \<Rightarrow> string option \<Rightarrow> string list" where
  "enumError field validValues v =
     (case v of
        None \<Rightarrow> []
      | Some x \<Rightarrow>
          if x \<notin> set validValues
          then [''DataHandling.'' @ field @ '' must be one of: '' @ joinComma validValues @ ''.'']
          else [])"

definition dataHandlingErrors :: "DataHandling \<Rightarrow> string list" where
  "dataHandlingErrors d =
     enumError ''personalDataCollection'' [''none'', ''minimal'', ''standard'', ''extensive'']
       (personalDataCollection d) @
     enumError ''dataRetention'' [''none'', ''session-only'', ''30-days'', ''1-year'', ''indefinite'']
       (dataRetention d) @
     enumError ''thirdPartySharing'' [''none'', ''anonymized'', ''with-consent'', ''unrestricted'']
       (thirdPartySharing d)"

definition pathErrors :: "string \<Rightarrow> string list \<Rightarrow> string list" where
  "pathErrors field paths =
     map (\<lambda>path. ''Restrictions.'' @ field @ '' path '' @ quoted path @ '' must start with '' @
                 quoted ''/'' @ ''.'')
       (filter (\<lambda>path. \<not> startsWith path ''/'') paths)"

definition restrictionsErrors :: "Restrictions \<Rightarrow> string list" where
  "restrictionsErrors r =
     pathErrors ''disallowedPaths'' (disallowedPaths r) @
     pathErrors ''requireHumanApproval'' (requireHumanApproval r) @
     pathErrors ''readOnlyPaths'' (readOnlyPaths r)"

definition agentIdentificationErrors :: "AgentIdentification \<Rightarrow> string list" where
  "agentIdentificationErrors a =
     (case agentHeaderName a of
        None \<Rightarrow> []
      | Some n \<Rightarrow>
          if trim n = []
          then [''AgentIdentification.agentHeaderName must be a non-empty string if specified.'']
          else [])"

definition validate :: "AgentsPolicy \<Rightarrow> ValidationResult" where
  "validate p =
     (let errs = identityErrors (identity p) @ trustErrors (trustRequirements p) @
                 rateLimitErrors (rateLimits p) @ dataHandlingErrors (dataHandling p) @
                 restrictionsErrors (restrictions p) @
                 agentIdentificationErrors (agentIdentification p)
      in \<lparr>valid = (errs = []), errors = errs\<rparr>)"

section \<open>The discovery client (\<^verbatim>\<open>fetcher.ts\<close>)\<close>

text \<open>
  The network is a parameter: for a URL and the abort timer of the attempt it gives what
  \<^verbatim>\<open>await fetch(url, ...)\<close> does, a rejection with the thrown value or a response.
  A response carries the final URL after redirects, the status, the
  \<^verbatim>\<open>content-length\<close> header and what \<^verbatim>\<open>await response.text()\<close> does.
\<close>

record JsError =
  isErrorInstance :: bool
  errorName :: string
  errorMessage :: string

record Response =
  url :: string
  status :: nat
  contentLength :: "string option"
  body :: "JsError + string"

type_synonym Network = "string \<Rightarrow> int \<Rightarrow> JsError + Response"

datatype failure = FetchPolicyError string | Thrown JsError

record FetchPolicyOptions =
  enforceHttps :: "bool option"
  timeoutMs :: "int option"

definition MAX_FILE_SIZE_BYTES :: int where
  "MAX_FILE_SIZE_BYTES = 1048576"

definition FETCH_TIMEOUT_MS :: int where
  "FETCH_TIMEOUT_MS = 10000"

text \<open>\<^verbatim>\<open>response.ok\<close>.\<close>

definition ok :: "Response \<Rightarrow> bool" where
  "ok r = (200 \<le> status r \<and> status r \<le> 299)"

text \<open>\<^verbatim>\<open>new TextEncoder().encode(text).length\<close>: one byte below U+0080, two from there on.\<close>

definition utf8Length :: "string \<Rightarrow> int" where
  "utf8Length text = (\<Sum>c \<leftarrow> text. if (of_char c :: nat) < 128 then 1 else 2)"

text \<open>The \<^verbatim>\<open>catch\<close> block of \<^verbatim>\<open>attemptFetch\<close>.\<close>

definition catchError :: "JsError \<Rightarrow> failure + string option" where
  "catchError e =
     (if isErrorInstance e \<and> errorName e = ''AbortError'' then Inr None else Inl (Thrown e))"

definition attemptFetch :: "Network \<Rightarrow> string \<Rightarrow> int \<Rightarrow> bool \<Rightarrow> failure + string option" where
  "attemptFetch net u timeout enforce =
     (case net u timeout of
        Inl e \<Rightarrow> catchError e
      | Inr response \<Rightarrow>
          if enforce \<and> \<not> startsWith (url response) ''https://'' then Inr None
          else if status response = 404 then Inr None
          else if \<not> ok response then Inr None
          else if (case contentLength response of
                     None \<Rightarrow> False
                   | Some cl \<Rightarrow> numGreater (parseInt10 cl) MAX_FILE_SIZE_BYTES)
          then Inr None
          else
            (case body response of
               Inl e \<Rightarrow> catchError e
             | Inr text \<Rightarrow>
                 if MAX_FILE_SIZE_BYTES < utf8Length text then Inr None else Inr (Some text)))"

text \<open>\<^verbatim>\<open>baseUrl.replace(/\/+$/, '')\<close>.\<close>

definition stripTrailingSlashes :: "string \<Rightarrow> string" where
  "stripTrailingSlashes s = rev (dropWhile (\<lambda>c. c = CHR ''/'') (rev s))"

definition candidateUrls :: "string \<Rightarrow> string list" where
  "candidateUrls normalizedBase =
     [normalizedBase @ ''/AGENTS.md'', normalizedBase @ ''/.well-known/agents.md'']"

text \<open>
  The loop over the candidates. Next to the result it returns the URLs that were fetched,
  in the order of the calls.
\<close>

fun tryCandidates ::
  "Network \<Rightarrow> int \<Rightarrow> bool \<Rightarrow> string list \<Rightarrow> (failure + ParseResult option) \<times> string list" where
  "tryCandidates net timeout enforce [] = (Inr None, [])"
| "tryCandidates net timeout enforce (u # us) =
     (case attemptFetch net u timeout enforce of
        Inl err \<Rightarrow> (Inl err, [u])
      | Inr None \<Rightarrow>
          (case tryCandidates net timeout enforce us of (r, fetched) \<Rightarrow> (r, u # fetched))
      | Inr (Some content) \<Rightarrow> (Inr (Some (parse content)), [u]))"

text \<open>The defaults of \<^verbatim>\<open>const { enforceHttps = true, timeoutMs = FETCH_TIMEOUT_MS } = options\<close>.\<close>

definition enforceHttpsOf :: "FetchPolicyOptions \<Rightarrow> bool" where
  "enforceHttpsOf options = (case enforceHttps options of None \<Rightarrow> True | Some b \<Rightarrow> b)"

definition timeoutMsOf :: "FetchPolicyOptions \<Rightarrow> int" where
  "timeoutMsOf options = (case timeoutMs options of None \<Rightarrow> FETCH_TIMEOUT_MS | Some t \<Rightarrow> t)"

definition fetchPolicy ::
  "Network \<Rightarrow> string \<Rightarrow> FetchPolicyOptions \<Rightarrow> (failure + ParseResult option) \<times> string list" where
  "fetchPolicy net baseUrl options =
     (let normalizedBase = stripTrailingSlashes baseUrl
      in if enforceHttpsOf options \<and> \<not> startsWith normalizedBase ''https://''
         then (Inl (FetchPolicyError
                 (''AGENTS.md must be served over HTTPS. Received URL: '' @ quoted baseUrl @
                  ''. Pass { enforceHttps: false } to override for testing.'')), [])
         else tryCandidates net (timeoutMsOf options) (enforceHttpsOf options)
                (candidateUrls normalizedBase))"

section \<open>The policy cache (\<^verbatim>\<open>docs/for-agent-developers.md\<close>)\<close>

record CacheEntry =
  policy :: ParseResult
  fetchedAt :: int

definition maxAgeMs :: int where
  "maxAgeMs = 24 * 60 * 60 * 1000"

definition defaultOptions :: FetchPolicyOptions where
  "defaultOptions = \<lparr>enforceHttps = None, timeoutMs = None\<rparr>"

text \<open>
  \<^verbatim>\<open>PolicyCache.getPolicy\<close>. \<open>now\<close> is what \<^verbatim>\<open>Date.now()\<close> returns at the freshness test and
  \<open>now'\<close> what it returns when the fetched policy is stored. The result comes with the new
  cache and the URLs fetched.
\<close>

definition refreshPolicy ::
  "Network \<Rightarrow> (string \<rightharpoonup> CacheEntry) \<Rightarrow> string \<Rightarrow> int \<Rightarrow>
   (failure + ParseResult option) \<times> (string \<rightharpoonup> CacheEntry) \<times> string list" where
  "refreshPolicy net cache baseUrl now' =
     (case fetchPolicy net baseUrl defaultOptions of
        (Inl err, fetched) \<Rightarrow> (Inl err, cache, fetched)
      | (Inr None, fetched) \<Rightarrow> (Inr None, cache, fetched)
      | (Inr (Some p), fetched) \<Rightarrow>
          (Inr (Some p), cache(baseUrl \<mapsto> \<lparr>CacheEntry.policy = p, fetchedAt = now'\<rparr>), fetched))"

definition getPolicy ::
  "Network \<Rightarrow> (string \<rightharpoonup> CacheEntry) \<Rightarrow> string \<Rightarrow> int \<Rightarrow> int \<Rightarrow>
   (failure + ParseResult option) \<times> (string \<rightharpoonup> CacheEntry) \<times> string list" where
  "getPolicy net cache baseUrl now now' =
     (case cache baseUrl of
        None \<Rightarrow> refreshPolicy net cache baseUrl now'
      | Some cached \<Rightarrow>
          if now - fetchedAt cached < maxAgeMs
          then (Inr (Some (CacheEntry.policy cached)), cache, [])
          else refreshPolicy net cache baseUrl now')"

text \<open>The warnings lists between the six section parsers of \<open>assemble\<close>.\<close>

definition warningsAfterTrust :: "(string \<rightharpoonup> SectionData) \<Rightarrow> ParseWarning list \<Rightarrow> ParseWarning list" where
  "warningsAfterTrust sections ws = snd (parseTrustRequirements (sections ''trust requirements'') ws)"

definition warningsAfterActions :: "(string \<rightharpoonup> SectionData) \<Rightarrow> ParseWarning list \<Rightarrow> ParseWarning list" where
  "warningsAfterActions sections ws =
     snd (parseAllowedActions (sections ''allowed actions'') (warningsAfterTrust sections ws))"

definition warningsAfterRateLimits :: "(string \<rightharpoonup> SectionData) \<Rightarrow> ParseWarning list \<Rightarrow> ParseWarning list" where
  "warningsAfterRateLimits sections ws =
     snd (parseRateLimits (sections ''rate limits'') (warningsAfterActions sections ws))"



text \<open>Example networks for \<^verbatim>\<open>https://example.com\<close>.\<close>

definition minimalFile :: string where
  "minimalFile = ''## Identity\<newline>- site: example.com''"

definition notFoundResponse :: "string \<Rightarrow> Response" where
  "notFoundResponse u = \<lparr>url = u, status = 404, contentLength = None, body = Inr ''Not Found''\<rparr>"

definition foundResponse :: "string \<Rightarrow> Response" where
  "foundResponse u = \<lparr>url = u, status = 200, contentLength = None, body = Inr minimalFile\<rparr>"

definition abortError :: JsError where
  "abortError = \<lparr>isErrorInstance = True, errorName = ''AbortError'',
                  errorMessage = ''This operation was aborted''\<rparr>"

definition connectionError :: JsError where
  "connectionError = \<lparr>isErrorInstance = True, errorName = ''TypeError'',
                       errorMessage = ''fetch failed''\<rparr>"

text \<open>Nothing is published: every URL answers 404.\<close>

definition emptyNetwork :: Network where
  "emptyNetwork u t = Inr (notFoundResponse u)"

text \<open>Only the fallback location has the file.\<close>

definition fallbackNetwork :: Network where
  "fallbackNetwork u t =
     (if u = ''https://example.com/.well-known/agents.md'' then Inr (foundResponse u)
      else Inr (notFoundResponse u))"

text \<open>The primary location redirects to plain HTTP and serves the file there.\<close>

definition downgradeNetwork :: Network where
  "downgradeNetwork u t =
     (if u = ''https://example.com/AGENTS.md''
      then Inr (foundResponse ''http://example.com/AGENTS.md'')
      else Inr (notFoundResponse u))"

text \<open>The primary location times out; the fallback has the file.\<close>

definition timeoutNetwork :: Network where
  "timeoutNetwork u t =
     (if u = ''https://example.com/AGENTS.md'' then Inl abortError
      else if u = ''https://example.com/.well-known/agents.md'' then Inr (foundResponse u)
      else Inr (notFoundResponse u))"

text \<open>The host cannot be reached.\<close>

definition unreachableNetwork :: Network where
  "unreachableNetwork u t = Inl connectionError"

text \<open>The primary location answers 200 and the connection breaks while the body is read.\<close>

definition brokenBodyNetwork :: Network where
  "brokenBodyNetwork u t =
     (if u = ''https://example.com/AGENTS.md''
      then Inr \<lparr>url = u, status = 200, contentLength = None, body = Inl connectionError\<rparr>
      else Inr (notFoundResponse u))"

text \<open>A policy that is valid but for its site, which has a tab in the middle.\<close>

definition tabSitePolicy :: AgentsPolicy where
  "tabSitePolicy =
     \<lparr>identity = \<lparr>site = [CHR ''a'', CHR 0x09, CHR ''b''], contact = None, lastUpdated = None,
                   specVersion = None\<rparr>,
      trustRequirements = defaultTrustRequirements,
      allowedActions = defaultActions,
      rateLimits = \<lparr>requestsPerMinute = None, requestsPerHour = None, concurrentSessions = None\<rparr>,
      dataHandling = \<lparr>personalDataCollection = None, dataRetention = None,
                       thirdPartySharing = None, gdprCompliance = None\<rparr>,
      restrictions = \<lparr>disallowedPaths = [], requireHumanApproval = [], readOnlyPaths = []\<rparr>,
      agentIdentification = defaultAgentIdentification\<rparr>"

text \<open>The same policy with the site \<^verbatim>\<open>https://example.com\<close>.\<close>

definition schemeSitePolicy :: AgentsPolicy where
  "schemeSitePolicy = tabSitePolicy\<lparr>identity := (identity tabSitePolicy)\<lparr>site := ''https://example.com''\<rparr>\<rparr>"

text \<open>The same policy with a no-break space (U+00A0) inside the site.\<close>

definition nbspSitePolicy :: AgentsPolicy where
  "nbspSitePolicy =
     tabSitePolicy\<lparr>identity := (identity tabSitePolicy)\<lparr>site := [CHR ''a'', CHR 0xA0, CHR ''b'']\<rparr>\<rparr>"

text \<open>
  A cache that holds for \<^verbatim>\<open>https://example.com\<close> an entry fetched at time 0.
\<close>

definition staleCache :: "string \<rightharpoonup> CacheEntry" where
  "staleCache =
     [''https://example.com'' \<mapsto> \<lparr>CacheEntry.policy = parse minimalFile, fetchedAt = 0\<rparr>]"

text \<open>A well-formed section: every key once, and no capital letter in a key.\<close>

definition wellFormedData :: "SectionData \<Rightarrow> bool" where
  "wellFormedData data =
     (distinct (map fst data) \<and> (\<forall>k \<in> set (map fst data). \<forall>c \<in> set k. c \<notin> set upperChars))"

text \<open>The inverse of \<open>kebabToCamel\<close> on keys without capital letters.\<close>

definition toLowerAZ :: "char \<Rightarrow> char" where
  "toLowerAZ c = (case map_of (zip upperAZ lowerAZ) c of Some d \<Rightarrow> d | None \<Rightarrow> c)"

fun camelToKebab :: "string \<Rightarrow> string" where
  "camelToKebab [] = []"
| "camelToKebab (c # cs) =
     (if c \<in> set upperAZ then CHR ''-'' # toLowerAZ c # camelToKebab cs else c # camelToKebab cs)"

text \<open>A file whose Allowed Actions section has two directives with unrecognised values.\<close>

definition invalidActionsFile :: string where
  "invalidActionsFile =
     ''## Identity\<newline>- site: a\<newline>## Allowed Actions\<newline>- read-content: maybe\<newline>- x-custom: maybe''"

text \<open>
  A file whose Allowed Actions section has the key \<^verbatim>\<open>read-content\<close> twice, first with
  an unrecognised value.
\<close>

definition duplicateActionsFile :: string where
  "duplicateActionsFile =
     ''## Identity\<newline>- site: a\<newline>## Allowed Actions\<newline>- read-content: maybe\<newline>- read-content: false''"

section \<open>Properties of the coercers and of the extraction\<close>

lemma trim_prefix: "\<exists>zs. dropWhile isWhiteSpace s = trim s @ zs"
proof -
  let ?t = "dropWhile isWhiteSpace s"
  have "rev ?t = takeWhile isWhiteSpace (rev ?t) @ dropWhile isWhiteSpace (rev ?t)"
    by simp
  then have "?t = rev (dropWhile isWhiteSpace (rev ?t)) @ rev (takeWhile isWhiteSpace (rev ?t))"
    by (metis rev_append rev_rev_ident)
  then show ?thesis unfolding trim_def by blast
qed

lemma parseInt10_PosInfinity: "parseInt10 raw = PosInfinity \<Longrightarrow> trim raw \<noteq> ''Infinity''"
proof
  assume p: "parseInt10 raw = PosInfinity" and t: "trim raw = ''Infinity''"
  obtain zs where z: "trimStart raw = ''Infinity'' @ zs"
    using trim_prefix[of raw] t by (auto simp: trimStart_def)
  show False using p unfolding parseInt10_def z by (simp add: isDigit_def digitChars_def Let_def)
qed

lemma parseInt10_NegInfinity: "parseInt10 raw = NegInfinity \<Longrightarrow> trim raw \<noteq> ''-Infinity''"
proof
  assume p: "parseInt10 raw = NegInfinity" and t: "trim raw = ''-Infinity''"
  obtain zs where z: "trimStart raw = ''-Infinity'' @ zs"
    using trim_prefix[of raw] t by (auto simp: trimStart_def)
  show False using p unfolding parseInt10_def z by (simp add: isDigit_def digitChars_def Let_def)
qed

lemma parseIntegerValue_IntNum:
  assumes "parseIntegerValue raw sec key ws = (Some v, ws')"
  shows "\<exists>n. v = IntNum n \<and> parseInt10 raw = IntNum n \<and> numberToString (IntNum n) = trim raw \<and> ws' = ws"
proof (cases "parseInt10 raw")
  case (IntNum n)
  then show ?thesis using assms by (auto simp: parseIntegerValue_def Let_def split: if_splits)
next
  case NaN
  then show ?thesis using assms by (auto simp: parseIntegerValue_def Let_def split: if_splits)
next
  case PosInfinity
  then show ?thesis using assms parseInt10_PosInfinity[of raw]
    by (auto simp: parseIntegerValue_def Let_def split: if_splits)
next
  case NegInfinity
  then show ?thesis using assms parseInt10_NegInfinity[of raw]
    by (auto simp: parseIntegerValue_def Let_def split: if_splits)
qed

lemma parseIntegerValue_None:
  assumes "parseIntegerValue raw sec key ws = (None, ws')"
  shows "ws' = ws @ [warning sec (''Invalid integer value '' @ quoted raw @ '' for key '' @ quoted key @ ''.'')]"
  using assms by (auto simp: parseIntegerValue_def Let_def split: if_splits)

lemma trim_empty_iff: "trim s = [] \<longleftrightarrow> (\<forall>c \<in> set s. isWhiteSpace c)"
proof
  assume "trim s = []"
  then have "dropWhile isWhiteSpace (rev (dropWhile isWhiteSpace s)) = []"
    by (simp add: trim_def)
  then have "\<forall>c \<in> set (dropWhile isWhiteSpace s). isWhiteSpace c"
    by (simp add: dropWhile_eq_Nil_conv)
  then have "dropWhile isWhiteSpace s = []"
    by (metis hd_dropWhile hd_in_set)
  then show "\<forall>c \<in> set s. isWhiteSpace c"
    by (simp add: dropWhile_eq_Nil_conv)
next
  assume "\<forall>c \<in> set s. isWhiteSpace c"
  then show "trim s = []" by (auto simp: trim_def dest: set_dropWhileD)
qed

lemma consHead_chars: "\<Union> (set ` set (consHead c ls)) = insert c (\<Union> (set ` set ls))"
  by (cases ls) auto

lemma splitLines_chars: "\<Union> (set ` set (splitLines s)) \<subseteq> set s"
proof (induction s rule: splitLines.induct)
  case 1
  then show ?case by simp
next
  case (2 c)
  then show ?case by simp
next
  case (3 c d cs)
  show ?case
  proof (cases "c = CHR 0x0D \<and> d = CHR 0x0A")
    case True
    with 3(1) show ?thesis by auto
  next
    case False
    show ?thesis
    proof (cases "c = CHR 0x0A")
      case True
      with False 3(2) show ?thesis by auto
    next
      case nl: False
      with False 3(3) show ?thesis by (auto simp: consHead_chars)
    qed
  qed
qed

lemma sectionMatch_blank: "\<forall>c \<in> set ln. isWhiteSpace c \<Longrightarrow> sectionMatch ln = None"
proof -
  assume a: "\<forall>c \<in> set ln. isWhiteSpace c"
  have "\<not> startsWith ln ''##''"
  proof
    assume "startsWith ln ''##''"
    then have "take 2 ln = ''##''" by (simp add: startsWith_def numeral_2_eq_2)
    then have "CHR ''#'' \<in> set (take 2 ln)" by simp
    then have "CHR ''#'' \<in> set ln" by (meson in_set_takeD)
    with a have "isWhiteSpace (CHR ''#'')" by blast
    then show False by (simp add: isWhiteSpace_def whiteSpaceChars_def)
  qed
  then show ?thesis by (simp add: sectionMatch_def)
qed

lemma foldl_extractLine_blank:
  "currentSectionName st = None \<Longrightarrow> \<forall>ln \<in> set lns. sectionMatch ln = None \<Longrightarrow>
   foldl extractLine st lns = st"
  by (induction lns arbitrary: st) (auto simp: extractLine_def)

lemma extractSections_blank:
  assumes "trim content = []"
  shows "extractSections content = Map.empty"
proof -
  have "\<forall>ln \<in> set (splitLines content). \<forall>c \<in> set ln. isWhiteSpace c"
    using assms splitLines_chars[of content] by (auto simp: trim_empty_iff)
  then have "\<forall>ln \<in> set (splitLines content). sectionMatch ln = None"
    using sectionMatch_blank by blast
  then show ?thesis
    by (simp add: extractSections_def foldl_extractLine_blank flushSection_def)
qed

lemma assemble_success: "success (assemble sections i ws)"
  by (simp add: assemble_def case_prod_beta)

lemma assemble_errors: "ParseResult.errors (assemble sections i ws) = []"
  by (simp add: assemble_def case_prod_beta)

lemma assemble_policy:
  "ParseResult.policy (assemble sections i ws) =
     Some \<lparr>identity = i,
           trustRequirements = fst (parseTrustRequirements (sections ''trust requirements'') ws),
           allowedActions = fst (parseAllowedActions (sections ''allowed actions'')
              (snd (parseTrustRequirements (sections ''trust requirements'') ws))),
           rateLimits = fst (parseRateLimits (sections ''rate limits'')
              (snd (parseAllowedActions (sections ''allowed actions'')
                 (snd (parseTrustRequirements (sections ''trust requirements'') ws))))),
           dataHandling = fst (parseDataHandling (sections ''data handling'')
              (snd (parseRateLimits (sections ''rate limits'')
              (snd (parseAllowedActions (sections ''allowed actions'')
                 (snd (parseTrustRequirements (sections ''trust requirements'') ws))))))),
           restrictions = fst (parseRestrictions (sections ''restrictions'')
              (snd (parseDataHandling (sections ''data handling'')
              (snd (parseRateLimits (sections ''rate limits'')
              (snd (parseAllowedActions (sections ''allowed actions'')
                 (snd (parseTrustRequirements (sections ''trust requirements'') ws))))))))),
           agentIdentification = fst (parseAgentIdentification (sections ''agent identification'')
              (snd (parseRestrictions (sections ''restrictions'')
              (snd (parseDataHandling (sections ''data handling'')
              (snd (parseRateLimits (sections ''rate limits'')
              (snd (parseAllowedActions (sections ''allowed actions'')
                 (snd (parseTrustRequirements (sections ''trust requirements'') ws)))))))))))\<rparr>"
  by (simp add: assemble_def case_prod_beta)

lemma parse_blank:
  "trim content = [] \<Longrightarrow>
   parse content = \<lparr>success = False, policy = None,
      errors = [parseError ''file'' ''File is empty.''], warnings = []\<rparr>"
  by (auto simp: parse_def)

lemma trim_Nil [simp]: "trim [] = []"
  by (simp add: trim_def)

lemma parse_no_identity:
  "trim content \<noteq> [] \<Longrightarrow> extractSections content ''identity'' = None \<Longrightarrow>
   parse content = \<lparr>success = False, policy = None,
      errors = [parseError ''identity''
        ''Missing required ## Identity section. An AGENTS.md file must contain an Identity section.''],
      warnings = []\<rparr>"
  by (auto simp: parse_def)

lemma parseIdentitySection_None_iff:
  "fst (parseIdentitySection d ws) = None \<longleftrightarrow>
     (case dataGet d ''site'' of None \<Rightarrow> True | Some s \<Rightarrow> trim s = [])"
  by (auto simp: parseIdentitySection_def split: option.splits)

lemma parseIdentitySection_None_warnings:
  "fst (parseIdentitySection d ws) = None \<Longrightarrow> snd (parseIdentitySection d ws) = ws"
  by (auto simp: parseIdentitySection_def split: option.splits if_splits)

lemma parse_no_site:
  assumes "trim content \<noteq> []" and "extractSections content ''identity'' = Some d"
    and "fst (parseIdentitySection d []) = None"
  shows "parse content = \<lparr>success = False, policy = None,
      errors = [parseError ''identity''
        (''The Identity section is missing the required '' @ quoted ''site'' @ '' key.'')],
      warnings = []\<rparr>"
proof -
  have "parseIdentitySection d [] = (None, [])"
    using assms(3) parseIdentitySection_None_warnings[of d "[]"] by (metis prod.collapse)
  then show ?thesis using assms(1,2) by (auto simp: parse_def)
qed

lemma parse_assemble:
  assumes "trim content \<noteq> []" and "extractSections content ''identity'' = Some d"
    and "parseIdentitySection d [] = (Some i, ws)"
  shows "parse content = assemble (extractSections content) i ws"
  using assms by (auto simp: parse_def)

section \<open>Claim C1: when parse fails\<close>

text \<open>
  Claim C1, as amended. \<^verbatim>\<open>parse\<close> returns \<open>success = false\<close> exactly when the site value of
  the Identity section is missing or empty after trimming: there is no section named
  \<^verbatim>\<open>identity\<close>, or it has no \<^verbatim>\<open>site\<close> directive, or an empty one. In that case no policy is
  returned and the result carries exactly one error; its section is \<^verbatim>\<open>identity\<close>, except
  for a content that is empty or white space only, where it is \<^verbatim>\<open>file\<close>. For every other
  input, however malformed its directives, \<open>success = true\<close>, a policy is returned and the
  list of errors is empty.
\<close>

theorem parse_fails_iff_site_missing:
  "(\<not> success (parse content) \<longleftrightarrow>
      (case extractSections content ''identity'' of
         None \<Rightarrow> True
       | Some d \<Rightarrow> (case dataGet d ''site'' of None \<Rightarrow> True | Some s \<Rightarrow> trim s = []))) \<and>
   (\<not> success (parse content) \<longrightarrow>
      ParseResult.policy (parse content) = None \<and>
      (\<exists>m. ParseResult.errors (parse content) =
             [parseError (if trim content = [] then ''file'' else ''identity'') m])) \<and>
   (success (parse content) \<longrightarrow>
      (\<exists>p. ParseResult.policy (parse content) = Some p) \<and>
      ParseResult.errors (parse content) = [])"
proof (cases "trim content = []")
  case True
  then show ?thesis by (auto simp: parse_blank extractSections_blank)
next
  case nonblank: False
  show ?thesis
  proof (cases "extractSections content ''identity''")
    case None
    with nonblank show ?thesis by (auto simp: parse_no_identity)
  next
    case (Some d)
    show ?thesis
    proof (cases "fst (parseIdentitySection d [])")
      case None
      moreover from None have "case dataGet d ''site'' of None \<Rightarrow> True | Some s \<Rightarrow> trim s = []"
        by (simp add: parseIdentitySection_None_iff)
      ultimately show ?thesis using nonblank Some
        by (auto simp: parse_no_site)
    next
      case (Some i)
      then have "parseIdentitySection d [] = (Some i, snd (parseIdentitySection d []))"
        by (metis prod.collapse)
      with nonblank \<open>extractSections content ''identity'' = Some d\<close>
      have "parse content = assemble (extractSections content) i (snd (parseIdentitySection d []))"
        by (rule parse_assemble)
      moreover have "\<not> (case dataGet d ''site'' of None \<Rightarrow> True | Some s \<Rightarrow> trim s = [])"
        using Some parseIdentitySection_None_iff[of d "[]"] by simp
      ultimately show ?thesis
        using \<open>extractSections content ''identity'' = Some d\<close>
        by (simp add: assemble_success assemble_errors assemble_policy)
    qed
  qed
qed

text \<open>
  Claim C1 as stated fails on the empty content (and on white space only): the one error
  of the result refers to \<^verbatim>\<open>file\<close>, not to \<^verbatim>\<open>identity\<close>.
\<close>

theorem parse_empty_file_error:
  "\<not> success (parse []) \<and>
   map ParseError.section (ParseResult.errors (parse [])) = [''file''] \<and>
   \<not> success (parse ''   \<newline>\<newline>  '') \<and>
   map ParseError.section (ParseResult.errors (parse ''   \<newline>\<newline>  '')) = [''file'']"
  by (simp add: parse_def parseError_def trim_def isWhiteSpace_def whiteSpaceChars_def)

text \<open>
  The amended claim at two inputs: a file without an Identity section, and a minimal file.
\<close>

theorem parse_fails_iff_site_missing_witness:
  "\<not> success (parse ''## Trust Requirements\<newline>- minimum-trust-level: 2\<newline>'') \<and>
   ParseResult.policy (parse ''## Trust Requirements\<newline>- minimum-trust-level: 2\<newline>'') = None \<and>
   map ParseError.section
     (ParseResult.errors (parse ''## Trust Requirements\<newline>- minimum-trust-level: 2\<newline>'')) =
     [''identity''] \<and>
   success (parse ''## Identity\<newline>- site: example.com\<newline>'') \<and>
   ParseResult.errors (parse ''## Identity\<newline>- site: example.com\<newline>'') = []"
proof -
  let ?a = "''## Trust Requirements\<newline>- minimum-trust-level: 2\<newline>''"
  let ?b = "''## Identity\<newline>- site: example.com\<newline>''"
  have a1: "extractSections ?a ''identity'' = None" by code_simp
  have a2: "trim ?a \<noteq> []" by code_simp
  have b1: "extractSections ?b ''identity'' = Some [(''site'', ''example.com'')]" by code_simp
  have b2: "trim ''example.com'' \<noteq> []" by code_simp
  show ?thesis
    using parse_fails_iff_site_missing[of ?a] parse_fails_iff_site_missing[of ?b] a1 a2 b1 b2
    by (auto simp: parseError_def dataGet_def)
qed

subsection \<open>Warnings are only ever appended\<close>

lemma parseBooleanValue_mono: "set ws \<subseteq> set (snd (parseBooleanValue raw sec key ws))"
  by (auto simp: parseBooleanValue_def Let_def)

lemma parseIntegerValue_mono: "set ws \<subseteq> set (snd (parseIntegerValue raw sec key ws))"
  by (auto simp: parseIntegerValue_def Let_def)

lemma parseTrustLevel_mono: "set ws \<subseteq> set (snd (parseTrustLevel data ws))"
proof (cases "dataGet data ''minimum-trust-level''")
  case None
  then show ?thesis by (simp add: parseTrustLevel_def)
next
  case (Some raw)
  obtain v w where pv: "parseIntegerValue raw ''trust requirements'' ''minimum-trust-level'' ws = (v, w)"
    by (cases "parseIntegerValue raw ''trust requirements'' ''minimum-trust-level'' ws") auto
  have "set ws \<subseteq> set w"
    using parseIntegerValue_mono[of ws raw "''trust requirements''" "''minimum-trust-level''"] pv
    by simp
  then show ?thesis using Some pv
    by (cases v) (auto simp: parseTrustLevel_def)
qed

lemma parseAuthentication_mono: "set ws \<subseteq> set (snd (parseAuthentication data ws))"
  by (auto simp: parseAuthentication_def Let_def split: option.splits)

lemma parseTrustRequirements_mono: "set ws \<subseteq> set (snd (parseTrustRequirements d ws))"
proof (cases d)
  case None
  then show ?thesis by (simp add: parseTrustRequirements_def)
next
  case (Some data)
  have "set ws \<subseteq> set (snd (parseTrustLevel data ws))" by (rule parseTrustLevel_mono)
  also have "\<dots> \<subseteq> set (snd (parseAuthentication data (snd (parseTrustLevel data ws))))"
    by (rule parseAuthentication_mono)
  finally show ?thesis using Some by (simp add: parseTrustRequirements_def case_prod_beta)
qed

lemma allowedActionsStep_mono: "set (snd acc) \<subseteq> set (snd (allowedActionsStep acc kv))"
  using parseBooleanValue_mono[of "snd acc" "snd kv" "''allowed actions''" "fst kv"]
  by (cases acc; cases kv) (auto split: prod.splits option.splits)

lemma foldl_allowedActionsStep_mono:
  "set (snd acc) \<subseteq> set (snd (foldl allowedActionsStep acc data))"
proof (induction data arbitrary: acc)
  case Nil
  then show ?case by simp
next
  case (Cons kv data)
  have "set (snd acc) \<subseteq> set (snd (allowedActionsStep acc kv))"
    by (rule allowedActionsStep_mono)
  also have "\<dots> \<subseteq> set (snd (foldl allowedActionsStep (allowedActionsStep acc kv) data))"
    by (rule Cons.IH)
  finally show ?case by simp
qed

lemma parseAllowedActions_mono: "set ws \<subseteq> set (snd (parseAllowedActions d ws))"
  using foldl_allowedActionsStep_mono[of "(defaultActions, ws)"]
  by (cases d) (simp_all add: parseAllowedActions_def)

lemma parseRateLimit_mono: "set ws \<subseteq> set (snd (parseRateLimit data key ws))"
  using parseIntegerValue_mono[of ws]
  by (simp add: parseRateLimit_def split: option.splits)

lemma parseRateLimits_mono: "set ws \<subseteq> set (snd (parseRateLimits d ws))"
proof (cases d)
  case None
  then show ?thesis by (simp add: parseRateLimits_def)
next
  case (Some data)
  let ?w1 = "snd (parseRateLimit data ''requests-per-minute'' ws)"
  let ?w2 = "snd (parseRateLimit data ''requests-per-hour'' ?w1)"
  let ?w3 = "snd (parseRateLimit data ''concurrent-sessions'' ?w2)"
  have "set ws \<subseteq> set ?w1" by (rule parseRateLimit_mono)
  also have "\<dots> \<subseteq> set ?w2" by (rule parseRateLimit_mono)
  also have "\<dots> \<subseteq> set ?w3" by (rule parseRateLimit_mono)
  finally show ?thesis using Some by (simp add: parseRateLimits_def case_prod_beta)
qed

lemma parseEnum_mono: "set ws \<subseteq> set (snd (parseEnum data key vs ex ws))"
  by (auto simp: parseEnum_def Let_def split: option.splits)

lemma parseBooleanField_mono: "set ws \<subseteq> set (snd (parseBooleanField data sec key ws))"
  using parseBooleanValue_mono[of ws]
  by (simp add: parseBooleanField_def split: option.splits)

lemma parseDataHandling_mono: "set ws \<subseteq> set (snd (parseDataHandling d ws))"
proof (cases d)
  case None
  then show ?thesis by (simp add: parseDataHandling_def)
next
  case (Some data)
  let ?w1 = "snd (parseEnum data ''personal-data-collection''
                  [''none'', ''minimal'', ''standard'', ''extensive'']
                  ''none/minimal/standard/extensive'' ws)"
  let ?w2 = "snd (parseEnum data ''data-retention''
                  [''none'', ''session-only'', ''30-days'', ''1-year'', ''indefinite'']
                  ''none/session-only/30-days/1-year/indefinite'' ?w1)"
  let ?w3 = "snd (parseEnum data ''third-party-sharing''
                  [''none'', ''anonymized'', ''with-consent'', ''unrestricted'']
                  ''none/anonymized/with-consent/unrestricted'' ?w2)"
  let ?w4 = "snd (parseBooleanField data ''data handling'' ''gdpr-compliance'' ?w3)"
  have "set ws \<subseteq> set ?w1" by (rule parseEnum_mono)
  also have "\<dots> \<subseteq> set ?w2" by (rule parseEnum_mono)
  also have "\<dots> \<subseteq> set ?w3" by (rule parseEnum_mono)
  also have "\<dots> \<subseteq> set ?w4" by (rule parseBooleanField_mono)
  finally show ?thesis using Some by (simp add: parseDataHandling_def case_prod_beta)
qed

lemma parseRestrictions_mono: "set ws \<subseteq> set (snd (parseRestrictions d ws))"
  by (cases d) (auto simp: parseRestrictions_def Let_def)

lemma parseAgentIdentification_mono: "set ws \<subseteq> set (snd (parseAgentIdentification d ws))"
proof (cases d)
  case None
  then show ?thesis by (simp add: parseAgentIdentification_def)
next
  case (Some data)
  let ?w1 = "snd (parseBooleanField data ''agent identification'' ''require-agent-header'' ws)"
  let ?w2 = "snd (parseBooleanField data ''agent identification'' ''require-disclosure'' ?w1)"
  have "set ws \<subseteq> set ?w1" by (rule parseBooleanField_mono)
  also have "\<dots> \<subseteq> set ?w2" by (rule parseBooleanField_mono)
  finally show ?thesis using Some by (simp add: parseAgentIdentification_def case_prod_beta)
qed

lemma assemble_warnings:
  "ParseResult.warnings (assemble sections i ws) =
     snd (parseAgentIdentification (sections ''agent identification'')
       (snd (parseRestrictions (sections ''restrictions'')
         (snd (parseDataHandling (sections ''data handling'')
           (warningsAfterRateLimits sections ws))))))"
  by (simp add: assemble_def case_prod_beta warningsAfterRateLimits_def
      warningsAfterActions_def warningsAfterTrust_def)

lemma assemble_warnings_rateLimits:
  "set (warningsAfterRateLimits sections ws) \<subseteq> set (ParseResult.warnings (assemble sections i ws))"
  unfolding assemble_warnings
  using parseDataHandling_mono parseRestrictions_mono parseAgentIdentification_mono
  by (meson subset_trans)

lemma assemble_warnings_actions:
  "set (warningsAfterActions sections ws) \<subseteq> set (ParseResult.warnings (assemble sections i ws))"
  using parseRateLimits_mono[of "warningsAfterActions sections ws" "sections ''rate limits''"]
    assemble_warnings_rateLimits[of sections ws i]
  by (auto simp: warningsAfterRateLimits_def)

lemma assemble_warnings_trust:
  "set (warningsAfterTrust sections ws) \<subseteq> set (ParseResult.warnings (assemble sections i ws))"
  using parseAllowedActions_mono[of "warningsAfterTrust sections ws" "sections ''allowed actions''"]
    assemble_warnings_actions[of sections ws i]
  by (auto simp: warningsAfterActions_def)

lemma parse_success_assemble:
  assumes "success (parse content)"
  shows "\<exists>d i ws. extractSections content ''identity'' = Some d \<and>
           parseIdentitySection d [] = (Some i, ws) \<and>
           parse content = assemble (extractSections content) i ws"
proof -
  have nb: "trim content \<noteq> []"
    using assms parse_blank[of content] by auto
  obtain d where d: "extractSections content ''identity'' = Some d"
    using assms nb parse_no_identity[of content] by (cases "extractSections content ''identity''") auto
  obtain i where i: "fst (parseIdentitySection d []) = Some i"
    using assms nb d parse_no_site[of content d] by (cases "fst (parseIdentitySection d [])") auto
  then have "parseIdentitySection d [] = (Some i, snd (parseIdentitySection d []))"
    by (metis prod.collapse)
  with nb d show ?thesis using parse_assemble by blast
qed

lemma parseTrustLevel_absent:
  "dataGet data ''minimum-trust-level'' = None \<Longrightarrow> fst (parseTrustLevel data ws) = IntNum 0"
  by (simp add: parseTrustLevel_def defaultTrustRequirements_def)

lemma parseIntegerValue_fst: "fst (parseIntegerValue raw sec key ws) = fst (parseIntegerValue raw sec key [])"
  by (simp add: parseIntegerValue_def Let_def)

lemma parseTrustLevel_invalid:
  assumes "dataGet data ''minimum-trust-level'' = Some raw"
    and "fst (parseIntegerValue raw ''trust requirements'' ''minimum-trust-level'' []) = None"
  shows "fst (parseTrustLevel data ws) = IntNum 0 \<and>
         warning ''trust requirements''
           (''Invalid integer value '' @ quoted raw @ '' for key '' @ quoted ''minimum-trust-level'' @ ''.'')
           \<in> set (snd (parseTrustLevel data ws))"
proof -
  let ?r = "parseIntegerValue raw ''trust requirements'' ''minimum-trust-level'' ws"
  have "fst ?r = None" using assms(2) parseIntegerValue_fst by metis
  then have r: "?r = (None, snd ?r)" by (metis prod.collapse)
  from parseIntegerValue_None[OF r] r assms(1) show ?thesis
    by (simp add: parseTrustLevel_def defaultTrustRequirements_def)
qed

lemma parseTrustLevel_integer:
  assumes "dataGet data ''minimum-trust-level'' = Some raw"
    and "fst (parseIntegerValue raw ''trust requirements'' ''minimum-trust-level'' []) = Some level"
  shows "\<exists>n. level = IntNum n \<and>
           (0 \<le> n \<and> n \<le> 5 \<longrightarrow> parseTrustLevel data ws = (IntNum n, ws)) \<and>
           (n < 0 \<longrightarrow> fst (parseTrustLevel data ws) = IntNum 0) \<and>
           (5 < n \<longrightarrow> fst (parseTrustLevel data ws) = IntNum 5) \<and>
           (n < 0 \<or> 5 < n \<longrightarrow>
              warning ''trust requirements''
                (''Trust level '' @ numberToString level @
                 '' is outside the valid 0-5 range. Clamping to nearest valid value.'')
                \<in> set (snd (parseTrustLevel data ws)))"
proof -
  let ?r = "parseIntegerValue raw ''trust requirements'' ''minimum-trust-level'' ws"
  have "fst ?r = Some level" using assms(2) parseIntegerValue_fst by metis
  then have r: "?r = (Some level, snd ?r)" by (metis prod.collapse)
  from parseIntegerValue_IntNum[OF r] obtain n where n: "level = IntNum n" and w: "snd ?r = ws"
    by blast
  have "?r = (Some (IntNum n), ws)" using r n w by simp
  then show ?thesis using assms(1) n
    by (auto simp: parseTrustLevel_def)
qed

lemma parseTrustRequirements_level:
  "minimumTrustLevel (fst (parseTrustRequirements (Some data) ws)) = fst (parseTrustLevel data ws)"
  by (simp add: parseTrustRequirements_def case_prod_beta)

lemma parseTrustRequirements_warnings:
  "set (snd (parseTrustLevel data ws)) \<subseteq> set (snd (parseTrustRequirements (Some data) ws))"
  using parseAuthentication_mono[of "snd (parseTrustLevel data ws)" data]
  by (simp add: parseTrustRequirements_def case_prod_beta)

section \<open>Claim C7: the minimum trust level\<close>

text \<open>
  Claim C7. Every policy returned by a successful parse has a \<open>minimumTrustLevel\<close> that is
  an integer between 0 and 5. Without a Trust Requirements section or without the
  directive it is the default 0. With the directive: a value that the integer coercer
  rejects is dropped, the default 0 is kept and the coercer's warning is among the
  warnings of the result; an integer between 0 and 5 is taken as it is; an integer below 0
  becomes 0 and one above 5 becomes 5, both with the clamping warning among the warnings.
\<close>

theorem parse_minimumTrustLevel:
  assumes "success (parse content)"
  shows "\<exists>p. ParseResult.policy (parse content) = Some p \<and>
     (\<exists>n. minimumTrustLevel (trustRequirements p) = IntNum n \<and> 0 \<le> n \<and> n \<le> 5) \<and>
     (case extractSections content ''trust requirements'' of
        None \<Rightarrow> minimumTrustLevel (trustRequirements p) = IntNum 0
      | Some data \<Rightarrow>
          (case dataGet data ''minimum-trust-level'' of
             None \<Rightarrow> minimumTrustLevel (trustRequirements p) = IntNum 0
           | Some raw \<Rightarrow>
               (case fst (parseIntegerValue raw ''trust requirements'' ''minimum-trust-level'' []) of
                  None \<Rightarrow>
                    minimumTrustLevel (trustRequirements p) = IntNum 0 \<and>
                    warning ''trust requirements''
                      (''Invalid integer value '' @ quoted raw @ '' for key '' @
                       quoted ''minimum-trust-level'' @ ''.'')
                      \<in> set (ParseResult.warnings (parse content))
                | Some level \<Rightarrow>
                    (\<exists>n. level = IntNum n \<and>
                       (0 \<le> n \<and> n \<le> 5 \<longrightarrow> minimumTrustLevel (trustRequirements p) = IntNum n) \<and>
                       (n < 0 \<longrightarrow> minimumTrustLevel (trustRequirements p) = IntNum 0) \<and>
                       (5 < n \<longrightarrow> minimumTrustLevel (trustRequirements p) = IntNum 5) \<and>
                       (n < 0 \<or> 5 < n \<longrightarrow>
                          warning ''trust requirements''
                            (''Trust level '' @ numberToString level @
                             '' is outside the valid 0-5 range. Clamping to nearest valid value.'')
                            \<in> set (ParseResult.warnings (parse content)))))))"
proof -
  from parse_success_assemble[OF assms] obtain d i ws where
    pa: "parse content = assemble (extractSections content) i ws" by blast
  let ?S = "extractSections content"
  let ?p = "the (ParseResult.policy (parse content))"
  have pol: "ParseResult.policy (parse content) = Some ?p"
    by (simp add: pa assemble_policy)
  have tr: "trustRequirements ?p = fst (parseTrustRequirements (?S ''trust requirements'') ws)"
    by (simp add: pa assemble_policy)
  have wsub: "set (snd (parseTrustRequirements (?S ''trust requirements'') ws))
        \<subseteq> set (ParseResult.warnings (parse content))"
    using assemble_warnings_trust[of ?S ws i] by (simp add: pa warningsAfterTrust_def)
  have detail: "(case ?S ''trust requirements'' of
        None \<Rightarrow> minimumTrustLevel (trustRequirements ?p) = IntNum 0
      | Some data \<Rightarrow>
          (case dataGet data ''minimum-trust-level'' of
             None \<Rightarrow> minimumTrustLevel (trustRequirements ?p) = IntNum 0
           | Some raw \<Rightarrow>
               (case fst (parseIntegerValue raw ''trust requirements'' ''minimum-trust-level'' []) of
                  None \<Rightarrow>
                    minimumTrustLevel (trustRequirements ?p) = IntNum 0 \<and>
                    warning ''trust requirements''
                      (''Invalid integer value '' @ quoted raw @ '' for key '' @
                       quoted ''minimum-trust-level'' @ ''.'')
                      \<in> set (ParseResult.warnings (parse content))
                | Some level \<Rightarrow>
                    (\<exists>n. level = IntNum n \<and>
                       (0 \<le> n \<and> n \<le> 5 \<longrightarrow> minimumTrustLevel (trustRequirements ?p) = IntNum n) \<and>
                       (n < 0 \<longrightarrow> minimumTrustLevel (trustRequirements ?p) = IntNum 0) \<and>
                       (5 < n \<longrightarrow> minimumTrustLevel (trustRequirements ?p) = IntNum 5) \<and>
                       (n < 0 \<or> 5 < n \<longrightarrow>
                          warning ''trust requirements''
                            (''Trust level '' @ numberToString level @
                             '' is outside the valid 0-5 range. Clamping to nearest valid value.'')
                            \<in> set (ParseResult.warnings (parse content)))))))"
  proof (cases "?S ''trust requirements''")
    case None
    then show ?thesis by (simp add: tr parseTrustRequirements_def defaultTrustRequirements_def)
  next
    case (Some data)
    have lv: "minimumTrustLevel (trustRequirements ?p) = fst (parseTrustLevel data ws)"
      by (simp add: tr Some parseTrustRequirements_level)
    have ww: "set (snd (parseTrustLevel data ws)) \<subseteq> set (ParseResult.warnings (parse content))"
      using parseTrustRequirements_warnings[of data ws] wsub Some by auto
    show ?thesis
    proof (cases "dataGet data ''minimum-trust-level''")
      case None
      with Some lv show ?thesis by (simp add: parseTrustLevel_absent)
    next
      case raw: (Some raw)
      show ?thesis
      proof (cases "fst (parseIntegerValue raw ''trust requirements'' ''minimum-trust-level'' [])")
        case None
        from parseTrustLevel_invalid[OF raw None, of ws] ww Some raw None lv
        show ?thesis by auto
      next
        case level: (Some level)
        from parseTrustLevel_integer[OF raw level, of ws] obtain n where
          n: "level = IntNum n"
            "0 \<le> n \<and> n \<le> 5 \<longrightarrow> parseTrustLevel data ws = (IntNum n, ws)"
            "n < 0 \<longrightarrow> fst (parseTrustLevel data ws) = IntNum 0"
            "5 < n \<longrightarrow> fst (parseTrustLevel data ws) = IntNum 5"
            "n < 0 \<or> 5 < n \<longrightarrow>
              warning ''trust requirements''
                (''Trust level '' @ numberToString level @
                 '' is outside the valid 0-5 range. Clamping to nearest valid value.'')
                \<in> set (snd (parseTrustLevel data ws))"
          by blast
        then show ?thesis using ww Some raw level lv by auto
      qed
    qed
  qed
  have range: "\<exists>n. minimumTrustLevel (trustRequirements ?p) = IntNum n \<and> 0 \<le> n \<and> n \<le> 5"
  proof (cases "?S ''trust requirements''")
    case None
    with detail show ?thesis by simp
  next
    case (Some data)
    show ?thesis
    proof (cases "dataGet data ''minimum-trust-level''")
      case None
      with Some detail show ?thesis by simp
    next
      case raw: (Some raw)
      show ?thesis
      proof (cases "fst (parseIntegerValue raw ''trust requirements'' ''minimum-trust-level'' [])")
        case None
        with Some raw detail show ?thesis by simp
      next
        case level: (Some level)
        with Some raw detail obtain n where
          "(0 \<le> n \<and> n \<le> 5 \<longrightarrow> minimumTrustLevel (trustRequirements ?p) = IntNum n) \<and>
           (n < 0 \<longrightarrow> minimumTrustLevel (trustRequirements ?p) = IntNum 0) \<and>
           (5 < n \<longrightarrow> minimumTrustLevel (trustRequirements ?p) = IntNum 5)"
          by auto
        then show ?thesis by (cases "n < 0"; cases "5 < n") auto
      qed
    qed
  qed
  from pol range detail show ?thesis by blast
qed

lemma parse_success_iff:
  "success (parse content) \<longleftrightarrow>
     (\<exists>d s. extractSections content ''identity'' = Some d \<and> dataGet d ''site'' = Some s \<and>
            trim s \<noteq> [])"
proof
  assume "success (parse content)"
  from parse_success_assemble[OF this] obtain d i ws where
    d: "extractSections content ''identity'' = Some d" and
    i: "parseIdentitySection d [] = (Some i, ws)" by blast
  from i have "fst (parseIdentitySection d []) \<noteq> None" by simp
  then have "\<not> (case dataGet d ''site'' of None \<Rightarrow> True | Some s \<Rightarrow> trim s = [])"
    by (simp add: parseIdentitySection_None_iff)
  with d show "\<exists>d s. extractSections content ''identity'' = Some d \<and> dataGet d ''site'' = Some s \<and>
            trim s \<noteq> []"
    by (auto split: option.splits)
next
  assume "\<exists>d s. extractSections content ''identity'' = Some d \<and> dataGet d ''site'' = Some s \<and>
            trim s \<noteq> []"
  then obtain d s where d: "extractSections content ''identity'' = Some d"
    and s: "dataGet d ''site'' = Some s" "trim s \<noteq> []" by blast
  have nb: "trim content \<noteq> []"
    using d extractSections_blank[of content] by auto
  from s have "fst (parseIdentitySection d []) \<noteq> None"
    by (simp add: parseIdentitySection_None_iff)
  then obtain i where "parseIdentitySection d [] = (Some i, snd (parseIdentitySection d []))"
    by (metis not_None_eq prod.collapse)
  with nb d have "parse content = assemble (extractSections content) i (snd (parseIdentitySection d []))"
    by (rule parse_assemble)
  then show "success (parse content)" by (simp add: assemble_success)
qed

text \<open>The definitions that evaluate the integer coercer on a concrete string.\<close>

lemmas number_eval =
  parseIntegerValue_def parseInt10_def trimStart_def trim_def isWhiteSpace_def whiteSpaceChars_def
  Let_def isDigit_def digitChars_def digitsValue_def digitVal_def toDouble_def natToString_def
  natDigits.simps quoted_def

text \<open>Claim C7 at a file that asks for level 7: the level is 5 and the warning is there.\<close>

theorem parse_minimumTrustLevel_witness:
  "success (parse ''## Identity\<newline>- site: a\<newline>## Trust Requirements\<newline>- minimum-trust-level: 7'') \<and>
   map_option (\<lambda>p. minimumTrustLevel (trustRequirements p))
     (ParseResult.policy (parse ''## Identity\<newline>- site: a\<newline>## Trust Requirements\<newline>- minimum-trust-level: 7''))
     = Some (IntNum 5) \<and>
   warning ''trust requirements''
     ''Trust level 7 is outside the valid 0-5 range. Clamping to nearest valid value.''
     \<in> set (ParseResult.warnings (parse ''## Identity\<newline>- site: a\<newline>## Trust Requirements\<newline>- minimum-trust-level: 7''))"
proof -
  let ?c = "''## Identity\<newline>- site: a\<newline>## Trust Requirements\<newline>- minimum-trust-level: 7''"
  have i: "extractSections ?c ''identity'' = Some [(''site'', ''a'')]" by code_simp
  have t: "extractSections ?c ''trust requirements'' = Some [(''minimum-trust-level'', ''7'')]"
    by code_simp
  have s: "success (parse ?c)"
    unfolding parse_success_iff i by (simp add: dataGet_def trim_def isWhiteSpace_def whiteSpaceChars_def)
  have v: "fst (parseIntegerValue ''7'' ''trust requirements'' ''minimum-trust-level'' []) = Some (IntNum 7)"
    by (simp add: number_eval)
  have n: "numberToString (IntNum 7) = ''7''" by (simp add: number_eval)
  from parse_minimumTrustLevel[OF s] show ?thesis
    using s t v n by (auto simp: dataGet_def)
qed

subsection \<open>Decimal numerals\<close>






















section \<open>Claim C5: the integer coercer and the rate limits\<close>



text \<open>The definitions that evaluate the extraction on a concrete string.\<close>

lemmas extract_eval =
  extractSections_def extractLine_def flushSection_def sectionMatch_def parseKeyValueLines_def
  parseKeyValueLine_def startsWith_def trim_def isWhiteSpace_def whiteSpaceChars_def
  isLineTerminator_def toLowerCase_def toLowerChar_def upperChars_def lowerChars_def Let_def

lemma parse_site_only_result:
  assumes "extractSections content = [''identity'' \<mapsto> [(''site'', v)]]" and "trim v \<noteq> []"
  shows "parse content =
    \<lparr>success = True,
     policy = Some
       \<lparr>identity = \<lparr>site = trim v, contact = None, lastUpdated = None, specVersion = None\<rparr>,
        trustRequirements = defaultTrustRequirements,
        allowedActions = defaultActions,
        rateLimits = \<lparr>requestsPerMinute = None, requestsPerHour = None, concurrentSessions = None\<rparr>,
        dataHandling = \<lparr>personalDataCollection = None, dataRetention = None,
                         thirdPartySharing = None, gdprCompliance = None\<rparr>,
        restrictions = \<lparr>disallowedPaths = [], requireHumanApproval = [], readOnlyPaths = []\<rparr>,
        agentIdentification = defaultAgentIdentification\<rparr>,
     errors = [], warnings = []\<rparr>"
proof -
  have i: "extractSections content ''identity'' = Some [(''site'', v)]"
    using assms(1) by simp
  have nb: "trim content \<noteq> []"
    using i extractSections_blank[of content] by auto
  have v: "v \<noteq> []" using assms(2) by auto
  have pi: "parseIdentitySection [(''site'', v)] [] =
     (Some \<lparr>site = trim v, contact = None, lastUpdated = None, specVersion = None\<rparr>, [])"
    using assms(2) v by (simp add: parseIdentitySection_def dataGet_def knownIdentityKeys_def)
  from parse_assemble[OF nb i pi] show ?thesis
    by (simp add: assms(1) assemble_def parseTrustRequirements_def parseAllowedActions_def
        parseRateLimits_def parseDataHandling_def parseRestrictions_def
        parseAgentIdentification_def)
qed

section \<open>Claim C4: a file with nothing but the site\<close>

text \<open>
  Claim C4, as amended. For every input whose sections are exactly the Identity section,
  and whose Identity section has exactly the directive \<^verbatim>\<open>site\<close> with a non-empty value,
  parse returns \<open>success = true\<close> without errors or warnings, the site is the trimmed
  value, and every other part of the policy is its default: \<open>minimumTrustLevel\<close> 0 and
  \<open>authentication\<close> \<^verbatim>\<open>none\<close>, without authentication methods; \<open>readContent\<close> true and
  the nine other standard actions false, and no further action; no rate limit and no
  data-handling field; three empty restriction lists; \<open>requireAgentHeader\<close> and
  \<open>requireDisclosure\<close> false, and \<open>agentHeaderName\<close> absent.
\<close>

theorem parse_site_only_defaults:
  assumes "extractSections content = [''identity'' \<mapsto> [(''site'', v)]]" and "trim v \<noteq> []"
  shows "parse content =
    \<lparr>success = True,
     policy = Some
       \<lparr>identity = \<lparr>site = trim v, contact = None, lastUpdated = None, specVersion = None\<rparr>,
        trustRequirements =
          \<lparr>minimumTrustLevel = IntNum 0, authentication = ''none'',
           authenticationMethods = None\<rparr>,
        allowedActions = map_of
          [(''readContent'', True), (''submitForms'', False), (''makePurchases'', False),
           (''modifyAccount'', False), (''accessApi'', False), (''downloadFiles'', False),
           (''uploadFiles'', False), (''sendMessages'', False), (''deleteData'', False),
           (''createContent'', False)],
        rateLimits = \<lparr>requestsPerMinute = None, requestsPerHour = None, concurrentSessions = None\<rparr>,
        dataHandling = \<lparr>personalDataCollection = None, dataRetention = None,
                         thirdPartySharing = None, gdprCompliance = None\<rparr>,
        restrictions = \<lparr>disallowedPaths = [], requireHumanApproval = [], readOnlyPaths = []\<rparr>,
        agentIdentification =
          \<lparr>requireAgentHeader = False, agentHeaderName = None, requireDisclosure = False\<rparr>\<rparr>,
     errors = [], warnings = []\<rparr>"
  using parse_site_only_result[OF assms]
  by (simp add: defaultTrustRequirements_def defaultActions_def defaultAgentIdentification_def)

text \<open>
  Claim C4 as stated fails on the minimal file: the \<open>agentHeaderName\<close> of the result is
  absent, it is not \<^verbatim>\<open>X-Agent-Identity\<close>.
\<close>

theorem parse_site_only_agentHeaderName:
  "ParseResult.policy
     (parse ''# AGENTS.md\<newline>\<newline>## Identity\<newline>- site: example.com\<newline>'') \<noteq> None \<and>
   agentHeaderName (agentIdentification (the (ParseResult.policy
     (parse ''# AGENTS.md\<newline>\<newline>## Identity\<newline>- site: example.com\<newline>'')))) = None"
  by code_simp

text \<open>The amended claim at the minimal file.\<close>

theorem parse_site_only_defaults_witness:
  "parse ''# AGENTS.md\<newline>\<newline>## Identity\<newline>- site: example.com\<newline>'' =
    \<lparr>success = True,
     policy = Some
       \<lparr>identity = \<lparr>site = ''example.com'', contact = None, lastUpdated = None,
                     specVersion = None\<rparr>,
        trustRequirements =
          \<lparr>minimumTrustLevel = IntNum 0, authentication = ''none'',
           authenticationMethods = None\<rparr>,
        allowedActions = map_of
          [(''readContent'', True), (''submitForms'', False), (''makePurchases'', False),
           (''modifyAccount'', False), (''accessApi'', False), (''downloadFiles'', False),
           (''uploadFiles'', False), (''sendMessages'', False), (''deleteData'', False),
           (''createContent'', False)],
        rateLimits = \<lparr>requestsPerMinute = None, requestsPerHour = None, concurrentSessions = None\<rparr>,
        dataHandling = \<lparr>personalDataCollection = None, dataRetention = None,
                         thirdPartySharing = None, gdprCompliance = None\<rparr>,
        restrictions = \<lparr>disallowedPaths = [], requireHumanApproval = [], readOnlyPaths = []\<rparr>,
        agentIdentification =
          \<lparr>requireAgentHeader = False, agentHeaderName = None, requireDisclosure = False\<rparr>\<rparr>,
     errors = [], warnings = []\<rparr>"
proof -
  have e: "extractSections ''# AGENTS.md\<newline>\<newline>## Identity\<newline>- site: example.com\<newline>'' =
     [''identity'' \<mapsto> [(''site'', ''example.com'')]]"
    by (simp add: extract_eval)
  have t: "trim ''example.com'' = ''example.com''"
    by (simp add: trim_def isWhiteSpace_def whiteSpaceChars_def)
  from parse_site_only_defaults[OF e] t show ?thesis by simp
qed

lemma tryCandidates_two:
  "tryCandidates net t e [u1, u2] =
     (case attemptFetch net u1 t e of
        Inl err \<Rightarrow> (Inl err, [u1])
      | Inr (Some c) \<Rightarrow> (Inr (Some (parse c)), [u1])
      | Inr None \<Rightarrow>
          (case attemptFetch net u2 t e of
             Inl err \<Rightarrow> (Inl err, [u1, u2])
           | Inr (Some c) \<Rightarrow> (Inr (Some (parse c)), [u1, u2])
           | Inr None \<Rightarrow> (Inr None, [u1, u2])))"
  by (simp split: sum.splits option.splits)

lemma fetchPolicy_preflight_ok:
  assumes "\<not> (enforceHttpsOf options \<and> \<not> startsWith (stripTrailingSlashes baseUrl) ''https://'')"
  shows "fetchPolicy net baseUrl options =
     tryCandidates net (timeoutMsOf options) (enforceHttpsOf options)
       [stripTrailingSlashes baseUrl @ ''/AGENTS.md'',
        stripTrailingSlashes baseUrl @ ''/.well-known/agents.md'']"
  using assms by (auto simp: fetchPolicy_def Let_def candidateUrls_def)

lemma fetchPolicy_preflight_fails:
  assumes "enforceHttpsOf options" and "\<not> startsWith (stripTrailingSlashes baseUrl) ''https://''"
  shows "fetchPolicy net baseUrl options =
     (Inl (FetchPolicyError
        (''AGENTS.md must be served over HTTPS. Received URL: '' @ quoted baseUrl @
         ''. Pass { enforceHttps: false } to override for testing.'')), [])"
  using assms by (simp add: fetchPolicy_def Let_def)

text \<open>The definitions that evaluate the discovery on a concrete network.\<close>

lemmas fetch_eval =
  fetchPolicy_def candidateUrls_def stripTrailingSlashes_def startsWith_def attemptFetch_def
  catchError_def ok_def utf8Length_def MAX_FILE_SIZE_BYTES_def FETCH_TIMEOUT_MS_def
  enforceHttpsOf_def timeoutMsOf_def defaultOptions_def notFoundResponse_def foundResponse_def
  minimalFile_def abortError_def connectionError_def Let_def

section \<open>Claim C2: the two candidates, in order\<close>

text \<open>
  Claim C2. Write \<open>u1\<close> for the origin (without trailing slashes) followed by
  \<^verbatim>\<open>/AGENTS.md\<close> and \<open>u2\<close> for the origin followed by \<^verbatim>\<open>/.well-known/agents.md\<close>. Whatever
  the origin, the URLs that \<^verbatim>\<open>fetchPolicy\<close> fetches are none, \<open>u1\<close>, or \<open>u1\<close> then \<open>u2\<close>.
  For an origin that passes the scheme check: when the fetch of \<open>u1\<close> yields content, the
  result is the parse of that content and \<open>u2\<close> is never fetched; when \<open>u1\<close> yields no
  content and \<open>u2\<close> yields content, the result is the parse of the content of \<open>u2\<close>;
  when neither yields content the result is null, not a failure.
\<close>

theorem fetchPolicy_candidates:
  "snd (fetchPolicy net baseUrl options) \<in>
     {[], [stripTrailingSlashes baseUrl @ ''/AGENTS.md''],
      [stripTrailingSlashes baseUrl @ ''/AGENTS.md'',
       stripTrailingSlashes baseUrl @ ''/.well-known/agents.md'']} \<and>
   (\<not> (enforceHttpsOf options \<and> \<not> startsWith (stripTrailingSlashes baseUrl) ''https://'') \<longrightarrow>
      (\<forall>c. attemptFetch net (stripTrailingSlashes baseUrl @ ''/AGENTS.md'')
             (timeoutMsOf options) (enforceHttpsOf options) = Inr (Some c) \<longrightarrow>
           fetchPolicy net baseUrl options =
             (Inr (Some (parse c)), [stripTrailingSlashes baseUrl @ ''/AGENTS.md''])) \<and>
      (\<forall>c. attemptFetch net (stripTrailingSlashes baseUrl @ ''/AGENTS.md'')
             (timeoutMsOf options) (enforceHttpsOf options) = Inr None \<and>
           attemptFetch net (stripTrailingSlashes baseUrl @ ''/.well-known/agents.md'')
             (timeoutMsOf options) (enforceHttpsOf options) = Inr (Some c) \<longrightarrow>
           fetchPolicy net baseUrl options =
             (Inr (Some (parse c)),
              [stripTrailingSlashes baseUrl @ ''/AGENTS.md'',
               stripTrailingSlashes baseUrl @ ''/.well-known/agents.md''])) \<and>
      (attemptFetch net (stripTrailingSlashes baseUrl @ ''/AGENTS.md'')
         (timeoutMsOf options) (enforceHttpsOf options) = Inr None \<and>
       attemptFetch net (stripTrailingSlashes baseUrl @ ''/.well-known/agents.md'')
         (timeoutMsOf options) (enforceHttpsOf options) = Inr None \<longrightarrow>
       fetchPolicy net baseUrl options =
         (Inr None,
          [stripTrailingSlashes baseUrl @ ''/AGENTS.md'',
           stripTrailingSlashes baseUrl @ ''/.well-known/agents.md''])))"
proof (cases "enforceHttpsOf options \<and> \<not> startsWith (stripTrailingSlashes baseUrl) ''https://''")
  case True
  then show ?thesis by (simp add: fetchPolicy_preflight_fails)
next
  case False
  then show ?thesis
    by (simp add: fetchPolicy_preflight_ok tryCandidates_two split: sum.splits option.splits)
qed

text \<open>
  Claim C2 where only the fallback has the file, and where nothing is published.
\<close>

theorem fetchPolicy_candidates_witness:
  "fetchPolicy fallbackNetwork ''https://example.com/'' defaultOptions =
     (Inr (Some (parse minimalFile)),
      [''https://example.com/AGENTS.md'', ''https://example.com/.well-known/agents.md'']) \<and>
   fetchPolicy emptyNetwork ''https://example.com/'' defaultOptions =
     (Inr None,
      [''https://example.com/AGENTS.md'', ''https://example.com/.well-known/agents.md''])"
proof -
  have s: "stripTrailingSlashes ''https://example.com/'' = ''https://example.com''"
    by (simp add: stripTrailingSlashes_def)
  have p: "\<not> (enforceHttpsOf defaultOptions \<and>
              \<not> startsWith (stripTrailingSlashes ''https://example.com/'') ''https://'')"
    by (simp add: s startsWith_def)
  have f1: "attemptFetch fallbackNetwork ''https://example.com/AGENTS.md''
              (timeoutMsOf defaultOptions) (enforceHttpsOf defaultOptions) = Inr None"
    by (simp add: fetch_eval fallbackNetwork_def)
  have f2: "attemptFetch fallbackNetwork ''https://example.com/.well-known/agents.md''
              (timeoutMsOf defaultOptions) (enforceHttpsOf defaultOptions) = Inr (Some minimalFile)"
    by (simp add: fetch_eval fallbackNetwork_def)
  have e1: "attemptFetch emptyNetwork ''https://example.com/AGENTS.md''
              (timeoutMsOf defaultOptions) (enforceHttpsOf defaultOptions) = Inr None"
    by (simp add: fetch_eval emptyNetwork_def)
  have e2: "attemptFetch emptyNetwork ''https://example.com/.well-known/agents.md''
              (timeoutMsOf defaultOptions) (enforceHttpsOf defaultOptions) = Inr None"
    by (simp add: fetch_eval emptyNetwork_def)
  from fetchPolicy_candidates[of fallbackNetwork "''https://example.com/''" defaultOptions]
    fetchPolicy_candidates[of emptyNetwork "''https://example.com/''" defaultOptions]
    p f1 f2 e1 e2
  show ?thesis by (simp add: s)
qed

section \<open>Claim C3: HTTPS enforcement\<close>

text \<open>
  Claim C3, as amended. With HTTPS enforcement enabled, an origin that is not HTTPS makes
  \<^verbatim>\<open>fetchPolicy\<close> raise \<^verbatim>\<open>FetchPolicyError\<close> before any fetch. A response whose final URL
  after redirects is not HTTPS is never trusted: with enforcement the attempt yields
  not-found for that candidate, whatever the response carries, so the primary candidate
  gives way to the fallback and the fallback to the null result.
\<close>

theorem fetchPolicy_https_enforced:
  "(enforceHttpsOf options \<and> \<not> startsWith (stripTrailingSlashes baseUrl) ''https://'' \<longrightarrow>
      fetchPolicy net baseUrl options =
        (Inl (FetchPolicyError
           (''AGENTS.md must be served over HTTPS. Received URL: '' @ quoted baseUrl @
            ''. Pass { enforceHttps: false } to override for testing.'')), [])) \<and>
   (net u t = Inr r \<and> \<not> startsWith (url r) ''https://'' \<longrightarrow>
      attemptFetch net u t True = Inr None) \<and>
   (enforceHttpsOf options \<and> startsWith (stripTrailingSlashes baseUrl) ''https://'' \<and>
    net (stripTrailingSlashes baseUrl @ ''/AGENTS.md'') (timeoutMsOf options) = Inr r \<and>
    \<not> startsWith (url r) ''https://'' \<longrightarrow>
      fetchPolicy net baseUrl options =
        (case attemptFetch net (stripTrailingSlashes baseUrl @ ''/.well-known/agents.md'')
                (timeoutMsOf options) True of
           Inl err \<Rightarrow> Inl err
         | Inr None \<Rightarrow> Inr None
         | Inr (Some c) \<Rightarrow> Inr (Some (parse c)),
         [stripTrailingSlashes baseUrl @ ''/AGENTS.md'',
          stripTrailingSlashes baseUrl @ ''/.well-known/agents.md'']))"
proof (intro conjI impI)
  assume "enforceHttpsOf options \<and> \<not> startsWith (stripTrailingSlashes baseUrl) ''https://''"
  then show "fetchPolicy net baseUrl options =
        (Inl (FetchPolicyError
           (''AGENTS.md must be served over HTTPS. Received URL: '' @ quoted baseUrl @
            ''. Pass { enforceHttps: false } to override for testing.'')), [])"
    by (simp add: fetchPolicy_preflight_fails)
next
  assume "net u t = Inr r \<and> \<not> startsWith (url r) ''https://''"
  then show "attemptFetch net u t True = Inr None"
    by (simp add: attemptFetch_def)
next
  assume a: "enforceHttpsOf options \<and> startsWith (stripTrailingSlashes baseUrl) ''https://'' \<and>
    net (stripTrailingSlashes baseUrl @ ''/AGENTS.md'') (timeoutMsOf options) = Inr r \<and>
    \<not> startsWith (url r) ''https://''"
  then have "attemptFetch net (stripTrailingSlashes baseUrl @ ''/AGENTS.md'')
               (timeoutMsOf options) (enforceHttpsOf options) = Inr None"
    by (simp add: attemptFetch_def)
  with a show "fetchPolicy net baseUrl options =
        (case attemptFetch net (stripTrailingSlashes baseUrl @ ''/.well-known/agents.md'')
                (timeoutMsOf options) True of
           Inl err \<Rightarrow> Inl err
         | Inr None \<Rightarrow> Inr None
         | Inr (Some c) \<Rightarrow> Inr (Some (parse c)),
         [stripTrailingSlashes baseUrl @ ''/AGENTS.md'',
          stripTrailingSlashes baseUrl @ ''/.well-known/agents.md''])"
    by (simp add: fetchPolicy_preflight_ok tryCandidates_two split: sum.splits option.splits)
qed

text \<open>
  Claim C3 as stated fails on a downgrading redirect: the primary location of an HTTPS
  origin settles on an HTTP URL and serves a file there, the fallback answers 404. With
  the default options \<^verbatim>\<open>fetchPolicy\<close> raises nothing; it returns null, as if no policy were
  published.
\<close>

theorem fetchPolicy_downgrade_returns_null:
  "fetchPolicy downgradeNetwork ''https://example.com'' defaultOptions =
     (Inr None,
      [''https://example.com/AGENTS.md'', ''https://example.com/.well-known/agents.md''])"
  by (simp add: fetch_eval downgradeNetwork_def)

text \<open>The amended claim at an HTTP origin and at the downgrading redirect.\<close>

theorem fetchPolicy_https_enforced_witness:
  "fetchPolicy emptyNetwork ''http://example.com'' defaultOptions =
     (Inl (FetchPolicyError
        (''AGENTS.md must be served over HTTPS. Received URL: '' @ quoted ''http://example.com'' @
         ''. Pass { enforceHttps: false } to override for testing.'')), []) \<and>
   attemptFetch downgradeNetwork ''https://example.com/AGENTS.md'' 10000 True = Inr None"
proof -
  have s: "stripTrailingSlashes ''http://example.com'' = ''http://example.com''"
    by (simp add: stripTrailingSlashes_def)
  have h: "enforceHttpsOf defaultOptions \<and>
           \<not> startsWith (stripTrailingSlashes ''http://example.com'') ''https://''"
    by (simp add: s startsWith_def enforceHttpsOf_def defaultOptions_def)
  have d: "downgradeNetwork ''https://example.com/AGENTS.md'' 10000 =
             Inr (foundResponse ''http://example.com/AGENTS.md'') \<and>
           \<not> startsWith (url (foundResponse ''http://example.com/AGENTS.md'')) ''https://''"
    by (simp add: downgradeNetwork_def foundResponse_def startsWith_def)
  from fetchPolicy_https_enforced[of defaultOptions "''http://example.com''" emptyNetwork]
    fetchPolicy_https_enforced[where net = downgradeNetwork and u = "''https://example.com/AGENTS.md''"
      and t = 10000 and r = "foundResponse ''http://example.com/AGENTS.md''"]
    h d
  show ?thesis by blast
qed

section \<open>Claim C6: timeouts and network failures\<close>

text \<open>
  Claim C6. A fetch attempt that ends in an abort (an \<^verbatim>\<open>Error\<close> named \<^verbatim>\<open>AbortError\<close>, which is
  what the timer of the attempt raises), in the request or while the body is read, is
  not-found for its candidate; if that candidate is the primary one, the fallback is
  fetched next and decides the result. Any other thrown value, from the request or from
  the reading of the body of a response that passed the checks before it, is rethrown by
  the attempt as it is, and nothing else is ever thrown by an attempt. What an attempt
  throws reaches the caller of \<^verbatim>\<open>fetchPolicy\<close> unchanged, from the primary candidate and
  from the fallback.
\<close>

theorem attemptFetch_abort_or_rethrow:
  "(net u t = Inl e \<and> isErrorInstance e \<and> errorName e = ''AbortError'' \<longrightarrow>
      attemptFetch net u t enforce = Inr None) \<and>
   (net u t = Inl e \<and> \<not> (isErrorInstance e \<and> errorName e = ''AbortError'') \<longrightarrow>
      attemptFetch net u t enforce = Inl (Thrown e)) \<and>
   (net u t = Inr r \<and> body r = Inl e \<and> isErrorInstance e \<and> errorName e = ''AbortError'' \<longrightarrow>
      attemptFetch net u t enforce = Inr None) \<and>
   (net u t = Inr r \<and> body r = Inl e \<and> \<not> (isErrorInstance e \<and> errorName e = ''AbortError'') \<and>
    \<not> (enforce \<and> \<not> startsWith (url r) ''https://'') \<and> status r \<noteq> 404 \<and> ok r \<and>
    \<not> (case contentLength r of
          None \<Rightarrow> False
        | Some cl \<Rightarrow> numGreater (parseInt10 cl) MAX_FILE_SIZE_BYTES) \<longrightarrow>
      attemptFetch net u t enforce = Inl (Thrown e)) \<and>
   (attemptFetch net u t enforce = Inl x \<longrightarrow>
      (\<exists>e'. x = Thrown e' \<and> \<not> (isErrorInstance e' \<and> errorName e' = ''AbortError'') \<and>
            (net u t = Inl e' \<or> (\<exists>r'. net u t = Inr r' \<and> body r' = Inl e')))) \<and>
   (\<not> (enforceHttpsOf options \<and> \<not> startsWith (stripTrailingSlashes baseUrl) ''https://'') \<longrightarrow>
      (net (stripTrailingSlashes baseUrl @ ''/AGENTS.md'') (timeoutMsOf options) = Inl e \<and>
       isErrorInstance e \<and> errorName e = ''AbortError'' \<longrightarrow>
         fetchPolicy net baseUrl options =
           (case attemptFetch net (stripTrailingSlashes baseUrl @ ''/.well-known/agents.md'')
                   (timeoutMsOf options) (enforceHttpsOf options) of
              Inl err \<Rightarrow> Inl err
            | Inr None \<Rightarrow> Inr None
            | Inr (Some c) \<Rightarrow> Inr (Some (parse c)),
            [stripTrailingSlashes baseUrl @ ''/AGENTS.md'',
             stripTrailingSlashes baseUrl @ ''/.well-known/agents.md''])) \<and>
      (net (stripTrailingSlashes baseUrl @ ''/AGENTS.md'') (timeoutMsOf options) = Inl e \<and>
       \<not> (isErrorInstance e \<and> errorName e = ''AbortError'') \<longrightarrow>
         fetchPolicy net baseUrl options =
           (Inl (Thrown e), [stripTrailingSlashes baseUrl @ ''/AGENTS.md''])) \<and>
      (attemptFetch net (stripTrailingSlashes baseUrl @ ''/AGENTS.md'')
         (timeoutMsOf options) (enforceHttpsOf options) = Inr None \<and>
       net (stripTrailingSlashes baseUrl @ ''/.well-known/agents.md'') (timeoutMsOf options) = Inl e \<and>
       \<not> (isErrorInstance e \<and> errorName e = ''AbortError'') \<longrightarrow>
         fetchPolicy net baseUrl options =
           (Inl (Thrown e),
            [stripTrailingSlashes baseUrl @ ''/AGENTS.md'',
             stripTrailingSlashes baseUrl @ ''/.well-known/agents.md''])) \<and>
      (attemptFetch net (stripTrailingSlashes baseUrl @ ''/AGENTS.md'')
         (timeoutMsOf options) (enforceHttpsOf options) = Inl x \<longrightarrow>
         fetchPolicy net baseUrl options = (Inl x, [stripTrailingSlashes baseUrl @ ''/AGENTS.md''])) \<and>
      (attemptFetch net (stripTrailingSlashes baseUrl @ ''/AGENTS.md'')
         (timeoutMsOf options) (enforceHttpsOf options) = Inr None \<and>
       attemptFetch net (stripTrailingSlashes baseUrl @ ''/.well-known/agents.md'')
         (timeoutMsOf options) (enforceHttpsOf options) = Inl x \<longrightarrow>
         fetchPolicy net baseUrl options =
           (Inl x,
            [stripTrailingSlashes baseUrl @ ''/AGENTS.md'',
             stripTrailingSlashes baseUrl @ ''/.well-known/agents.md''])))"
proof -
  have a1: "net u t = Inl e \<and> isErrorInstance e \<and> errorName e = ''AbortError'' \<longrightarrow>
      attemptFetch net u t enforce = Inr None" for net u t enforce
    by (simp add: attemptFetch_def catchError_def)
  have a2: "net u t = Inl e \<and> \<not> (isErrorInstance e \<and> errorName e = ''AbortError'') \<longrightarrow>
      attemptFetch net u t enforce = Inl (Thrown e)" for net u t enforce
    by (auto simp: attemptFetch_def catchError_def)
  have a3: "net u t = Inr r \<and> body r = Inl e \<and> isErrorInstance e \<and> errorName e = ''AbortError'' \<longrightarrow>
      attemptFetch net u t enforce = Inr None"
    by (simp add: attemptFetch_def catchError_def)
  have a5: "net u t = Inr r \<and> body r = Inl e \<and> \<not> (isErrorInstance e \<and> errorName e = ''AbortError'') \<and>
    \<not> (enforce \<and> \<not> startsWith (url r) ''https://'') \<and> status r \<noteq> 404 \<and> ok r \<and>
    \<not> (case contentLength r of
          None \<Rightarrow> False
        | Some cl \<Rightarrow> numGreater (parseInt10 cl) MAX_FILE_SIZE_BYTES) \<longrightarrow>
      attemptFetch net u t enforce = Inl (Thrown e)"
    by (auto simp: attemptFetch_def catchError_def)
  have a6: "attemptFetch net u t enforce = Inl x \<longrightarrow>
      (\<exists>e'. x = Thrown e' \<and> \<not> (isErrorInstance e' \<and> errorName e' = ''AbortError'') \<and>
            (net u t = Inl e' \<or> (\<exists>r'. net u t = Inr r' \<and> body r' = Inl e')))"
  proof (cases "net u t")
    case (Inl e0)
    then show ?thesis by (auto simp: attemptFetch_def catchError_def split: if_splits)
  next
    case (Inr r0)
    show ?thesis
    proof (cases "body r0")
      case (Inl e0)
      with Inr show ?thesis by (auto simp: attemptFetch_def catchError_def split: if_splits)
    next
      case bodyText: (Inr content)
      with Inr show ?thesis by (auto simp: attemptFetch_def split: if_splits)
    qed
  qed
  have a4: "\<not> (enforceHttpsOf options \<and> \<not> startsWith (stripTrailingSlashes baseUrl) ''https://'') \<longrightarrow>
      (net (stripTrailingSlashes baseUrl @ ''/AGENTS.md'') (timeoutMsOf options) = Inl e \<and>
       isErrorInstance e \<and> errorName e = ''AbortError'' \<longrightarrow>
         fetchPolicy net baseUrl options =
           (case attemptFetch net (stripTrailingSlashes baseUrl @ ''/.well-known/agents.md'')
                   (timeoutMsOf options) (enforceHttpsOf options) of
              Inl err \<Rightarrow> Inl err
            | Inr None \<Rightarrow> Inr None
            | Inr (Some c) \<Rightarrow> Inr (Some (parse c)),
            [stripTrailingSlashes baseUrl @ ''/AGENTS.md'',
             stripTrailingSlashes baseUrl @ ''/.well-known/agents.md''])) \<and>
      (net (stripTrailingSlashes baseUrl @ ''/AGENTS.md'') (timeoutMsOf options) = Inl e \<and>
       \<not> (isErrorInstance e \<and> errorName e = ''AbortError'') \<longrightarrow>
         fetchPolicy net baseUrl options =
           (Inl (Thrown e), [stripTrailingSlashes baseUrl @ ''/AGENTS.md''])) \<and>
      (attemptFetch net (stripTrailingSlashes baseUrl @ ''/AGENTS.md'')
         (timeoutMsOf options) (enforceHttpsOf options) = Inr None \<and>
       net (stripTrailingSlashes baseUrl @ ''/.well-known/agents.md'') (timeoutMsOf options) = Inl e \<and>
       \<not> (isErrorInstance e \<and> errorName e = ''AbortError'') \<longrightarrow>
         fetchPolicy net baseUrl options =
           (Inl (Thrown e),
            [stripTrailingSlashes baseUrl @ ''/AGENTS.md'',
             stripTrailingSlashes baseUrl @ ''/.well-known/agents.md''])) \<and>
      (attemptFetch net (stripTrailingSlashes baseUrl @ ''/AGENTS.md'')
         (timeoutMsOf options) (enforceHttpsOf options) = Inl x \<longrightarrow>
         fetchPolicy net baseUrl options = (Inl x, [stripTrailingSlashes baseUrl @ ''/AGENTS.md''])) \<and>
      (attemptFetch net (stripTrailingSlashes baseUrl @ ''/AGENTS.md'')
         (timeoutMsOf options) (enforceHttpsOf options) = Inr None \<and>
       attemptFetch net (stripTrailingSlashes baseUrl @ ''/.well-known/agents.md'')
         (timeoutMsOf options) (enforceHttpsOf options) = Inl x \<longrightarrow>
         fetchPolicy net baseUrl options =
           (Inl x,
            [stripTrailingSlashes baseUrl @ ''/AGENTS.md'',
             stripTrailingSlashes baseUrl @ ''/.well-known/agents.md'']))"
  proof (intro impI conjI)
    assume pf: "\<not> (enforceHttpsOf options \<and> \<not> startsWith (stripTrailingSlashes baseUrl) ''https://'')"
    note fp = fetchPolicy_preflight_ok[OF pf, of net] tryCandidates_two
    {
      assume "net (stripTrailingSlashes baseUrl @ ''/AGENTS.md'') (timeoutMsOf options) = Inl e \<and>
       isErrorInstance e \<and> errorName e = ''AbortError''"
      with a1 have "attemptFetch net (stripTrailingSlashes baseUrl @ ''/AGENTS.md'')
           (timeoutMsOf options) (enforceHttpsOf options) = Inr None" by blast
      then show "fetchPolicy net baseUrl options =
           (case attemptFetch net (stripTrailingSlashes baseUrl @ ''/.well-known/agents.md'')
                   (timeoutMsOf options) (enforceHttpsOf options) of
              Inl err \<Rightarrow> Inl err
            | Inr None \<Rightarrow> Inr None
            | Inr (Some c) \<Rightarrow> Inr (Some (parse c)),
            [stripTrailingSlashes baseUrl @ ''/AGENTS.md'',
             stripTrailingSlashes baseUrl @ ''/.well-known/agents.md''])"
        by (simp add: fp split: sum.splits option.splits)
    }
    {
      assume "net (stripTrailingSlashes baseUrl @ ''/AGENTS.md'') (timeoutMsOf options) = Inl e \<and>
       \<not> (isErrorInstance e \<and> errorName e = ''AbortError'')"
      with a2 have "attemptFetch net (stripTrailingSlashes baseUrl @ ''/AGENTS.md'')
           (timeoutMsOf options) (enforceHttpsOf options) = Inl (Thrown e)" by blast
      then show "fetchPolicy net baseUrl options =
           (Inl (Thrown e), [stripTrailingSlashes baseUrl @ ''/AGENTS.md''])"
        by (simp add: fp)
    }
    {
      assume b: "attemptFetch net (stripTrailingSlashes baseUrl @ ''/AGENTS.md'')
         (timeoutMsOf options) (enforceHttpsOf options) = Inr None \<and>
       net (stripTrailingSlashes baseUrl @ ''/.well-known/agents.md'') (timeoutMsOf options) = Inl e \<and>
       \<not> (isErrorInstance e \<and> errorName e = ''AbortError'')"
      with a2 have "attemptFetch net (stripTrailingSlashes baseUrl @ ''/.well-known/agents.md'')
           (timeoutMsOf options) (enforceHttpsOf options) = Inl (Thrown e)" by blast
      with b show "fetchPolicy net baseUrl options =
           (Inl (Thrown e),
            [stripTrailingSlashes baseUrl @ ''/AGENTS.md'',
             stripTrailingSlashes baseUrl @ ''/.well-known/agents.md''])"
        by (simp add: fp)
    }
    {
      assume "attemptFetch net (stripTrailingSlashes baseUrl @ ''/AGENTS.md'')
         (timeoutMsOf options) (enforceHttpsOf options) = Inl x"
      then show "fetchPolicy net baseUrl options =
          (Inl x, [stripTrailingSlashes baseUrl @ ''/AGENTS.md''])"
        by (simp add: fp)
    }
    {
      assume "attemptFetch net (stripTrailingSlashes baseUrl @ ''/AGENTS.md'')
         (timeoutMsOf options) (enforceHttpsOf options) = Inr None \<and>
       attemptFetch net (stripTrailingSlashes baseUrl @ ''/.well-known/agents.md'')
         (timeoutMsOf options) (enforceHttpsOf options) = Inl x"
      then show "fetchPolicy net baseUrl options =
           (Inl x,
            [stripTrailingSlashes baseUrl @ ''/AGENTS.md'',
             stripTrailingSlashes baseUrl @ ''/.well-known/agents.md''])"
        by (simp add: fp)
    }
  qed
  show ?thesis by (intro conjI) (rule a1 a2 a3 a5 a6 a4)+
qed

text \<open>
  Claim C6 where the primary location times out and the fallback has the file, where the
  host cannot be reached, and where the connection breaks while the body is read.
\<close>

theorem attemptFetch_abort_or_rethrow_witness:
  "fetchPolicy timeoutNetwork ''https://example.com'' defaultOptions =
     (Inr (Some (parse minimalFile)),
      [''https://example.com/AGENTS.md'', ''https://example.com/.well-known/agents.md'']) \<and>
   fetchPolicy unreachableNetwork ''https://example.com'' defaultOptions =
     (Inl (Thrown connectionError), [''https://example.com/AGENTS.md'']) \<and>
   fetchPolicy brokenBodyNetwork ''https://example.com'' defaultOptions =
     (Inl (Thrown connectionError), [''https://example.com/AGENTS.md''])"
proof -
  let ?r = "\<lparr>url = ''https://example.com/AGENTS.md'', status = 200, contentLength = None,
             body = Inl connectionError\<rparr>"
  have s: "stripTrailingSlashes ''https://example.com'' = ''https://example.com''"
    by (simp add: stripTrailingSlashes_def)
  have p: "\<not> (enforceHttpsOf defaultOptions \<and>
              \<not> startsWith (stripTrailingSlashes ''https://example.com'') ''https://'')"
    by (simp add: s startsWith_def)
  have t1: "timeoutNetwork (stripTrailingSlashes ''https://example.com'' @ ''/AGENTS.md'')
              (timeoutMsOf defaultOptions) = Inl abortError \<and>
            isErrorInstance abortError \<and> errorName abortError = ''AbortError''"
    by (simp add: s timeoutNetwork_def abortError_def)
  have t2: "attemptFetch timeoutNetwork
              (stripTrailingSlashes ''https://example.com'' @ ''/.well-known/agents.md'')
              (timeoutMsOf defaultOptions) (enforceHttpsOf defaultOptions) = Inr (Some minimalFile)"
    by (simp add: s fetch_eval timeoutNetwork_def)
  have u1: "unreachableNetwork (stripTrailingSlashes ''https://example.com'' @ ''/AGENTS.md'')
              (timeoutMsOf defaultOptions) = Inl connectionError \<and>
            \<not> (isErrorInstance connectionError \<and> errorName connectionError = ''AbortError'')"
    by (simp add: s unreachableNetwork_def connectionError_def)
  have b1: "brokenBodyNetwork ''https://example.com/AGENTS.md'' (timeoutMsOf defaultOptions) = Inr ?r \<and>
      body ?r = Inl connectionError \<and>
      \<not> (isErrorInstance connectionError \<and> errorName connectionError = ''AbortError'') \<and>
      \<not> (enforceHttpsOf defaultOptions \<and> \<not> startsWith (url ?r) ''https://'') \<and>
      status ?r \<noteq> 404 \<and> ok ?r \<and>
      \<not> (case contentLength ?r of
            None \<Rightarrow> False
          | Some cl \<Rightarrow> numGreater (parseInt10 cl) MAX_FILE_SIZE_BYTES)"
    by (simp add: brokenBodyNetwork_def connectionError_def startsWith_def ok_def)
  note A = attemptFetch_abort_or_rethrow[THEN conjunct2, THEN conjunct2, THEN conjunct2,
      THEN conjunct1, rule_format]
  note T = attemptFetch_abort_or_rethrow[THEN conjunct2, THEN conjunct2, THEN conjunct2,
      THEN conjunct2, THEN conjunct2, rule_format, OF p]
  from T[of timeoutNetwork abortError, THEN conjunct1] t1 t2
  have r1: "fetchPolicy timeoutNetwork ''https://example.com'' defaultOptions =
     (Inr (Some (parse minimalFile)),
      [''https://example.com/AGENTS.md'', ''https://example.com/.well-known/agents.md''])"
    by (simp add: s)
  from T[of unreachableNetwork connectionError, THEN conjunct2, THEN conjunct1] u1
  have r2: "fetchPolicy unreachableNetwork ''https://example.com'' defaultOptions =
     (Inl (Thrown connectionError), [''https://example.com/AGENTS.md''])"
    by (simp add: s)
  from A[of brokenBodyNetwork "''https://example.com/AGENTS.md''" "timeoutMsOf defaultOptions"
      ?r connectionError "enforceHttpsOf defaultOptions"] b1
  have b2: "attemptFetch brokenBodyNetwork ''https://example.com/AGENTS.md''
      (timeoutMsOf defaultOptions) (enforceHttpsOf defaultOptions) = Inl (Thrown connectionError)"
    by blast
  from T[of brokenBodyNetwork _ "Thrown connectionError", THEN conjunct2, THEN conjunct2,
      THEN conjunct2, THEN conjunct1] b2
  have r3: "fetchPolicy brokenBodyNetwork ''https://example.com'' defaultOptions =
     (Inl (Thrown connectionError), [''https://example.com/AGENTS.md''])"
    by (simp add: s)
  from r1 r2 r3 show ?thesis by blast
qed

lemma includesStr_char: "includesStr s [c] \<longleftrightarrow> c \<in> set s"
  by (induction s) (auto simp: startsWith_def)

lemma siteErrors_nonempty:
  "s = [] \<or> trim s = [] \<or> includesStr s ''://'' \<or> CHR '' '' \<in> set s \<Longrightarrow> siteErrors s \<noteq> []"
  by (auto simp: siteErrors_def includesStr_char)

lemma siteErrors_empty:
  "\<not> (trim s = [] \<or> includesStr s ''://'' \<or> CHR '' '' \<in> set s) \<Longrightarrow> siteErrors s = []"
  by (auto simp: siteErrors_def includesStr_char)

lemma siteErrors_example: "siteErrors ''example.com'' = []"
  by (simp add: siteErrors_def trim_def isWhiteSpace_def whiteSpaceChars_def startsWith_def)

lemma otherErrors_not_site:
  "e \<in> set (trustErrors t @ rateLimitErrors r @ dataHandlingErrors d @ restrictionsErrors x @
            agentIdentificationErrors a) \<Longrightarrow> \<not> startsWith e ''Identity.site''"
  by (auto simp: trustErrors_def rateLimitErrors_def rateLimitError_def dataHandlingErrors_def
      enumError_def restrictionsErrors_def pathErrors_def agentIdentificationErrors_def
      startsWith_def Let_def split: option.splits if_splits)

lemma lastUpdatedError_not_site:
  "e \<in> set (identityErrors i) \<Longrightarrow> siteErrors (site i) = [] \<Longrightarrow> \<not> startsWith e ''Identity.site''"
  by (auto simp: identityErrors_def startsWith_def split: option.splits if_splits)

lemma validate_no_site_error:
  assumes "siteErrors (site (identity p)) = []" and "e \<in> set (ValidationResult.errors (validate p))"
  shows "\<not> startsWith e ''Identity.site''"
proof -
  from assms(2) have "e \<in> set (identityErrors (identity p)) \<or>
     e \<in> set (trustErrors (trustRequirements p) @ rateLimitErrors (rateLimits p) @
       dataHandlingErrors (dataHandling p) @ restrictionsErrors (restrictions p) @
       agentIdentificationErrors (agentIdentification p))"
    by (auto simp: validate_def Let_def)
  then show ?thesis
    using lastUpdatedError_not_site[OF _ assms(1)] otherErrors_not_site by blast
qed

lemma siteErrors_reported:
  "s = [] \<or> trim s = [] \<or> includesStr s ''://'' \<or> CHR '' '' \<in> set s \<Longrightarrow>
   list_ex (\<lambda>e. startsWith e ''Identity.site'') (siteErrors s)"
  by (auto simp: siteErrors_def includesStr_char startsWith_def)

section \<open>Claim C8: the validator and the site\<close>

text \<open>
  Claim C8, as amended. For every policy, \<^verbatim>\<open>validate\<close> reports an error about the site (a
  message that starts with \<^verbatim>\<open>Identity.site\<close>) whenever the site is empty or white space only,
  contains the scheme separator \<^verbatim>\<open>://\<close>, or contains a space character (U+0020). In every
  other case no error about the site is reported, whatever other white space (a tab, a
  no-break space, a line break) the site has inside: no message starts with
  \<^verbatim>\<open>Identity.site\<close>, and the errors are those of the same policy with the site
  \<^verbatim>\<open>example.com\<close>. The \<open>valid\<close> flag is true exactly when the list of errors is empty.
\<close>

theorem validate_site:
  "(site (identity p) = [] \<or> trim (site (identity p)) = [] \<or>
    includesStr (site (identity p)) ''://'' \<or> CHR '' '' \<in> set (site (identity p)) \<longrightarrow>
      ValidationResult.errors (validate p) \<noteq> [] \<and>
      list_ex (\<lambda>e. startsWith e ''Identity.site'') (ValidationResult.errors (validate p))) \<and>
   (\<not> (trim (site (identity p)) = [] \<or> includesStr (site (identity p)) ''://'' \<or>
       CHR '' '' \<in> set (site (identity p))) \<longrightarrow>
      \<not> list_ex (\<lambda>e. startsWith e ''Identity.site'') (ValidationResult.errors (validate p)) \<and>
      ValidationResult.errors (validate p) =
        ValidationResult.errors
          (validate (p\<lparr>identity := (identity p)\<lparr>site := ''example.com''\<rparr>\<rparr>))) \<and>
   (valid (validate p) \<longleftrightarrow> ValidationResult.errors (validate p) = [])"
proof (intro conjI impI)
  assume b: "site (identity p) = [] \<or> trim (site (identity p)) = [] \<or>
    includesStr (site (identity p)) ''://'' \<or> CHR '' '' \<in> set (site (identity p))"
  then show "ValidationResult.errors (validate p) \<noteq> []"
    using siteErrors_nonempty[of "site (identity p)"]
    by (auto simp: validate_def Let_def identityErrors_def)
  from b have "list_ex (\<lambda>e. startsWith e ''Identity.site'') (siteErrors (site (identity p)))"
    by (rule siteErrors_reported)
  then show "list_ex (\<lambda>e. startsWith e ''Identity.site'') (ValidationResult.errors (validate p))"
    by (auto simp: validate_def Let_def identityErrors_def list_ex_iff)
next
  assume "\<not> (trim (site (identity p)) = [] \<or> includesStr (site (identity p)) ''://'' \<or>
       CHR '' '' \<in> set (site (identity p)))"
  then have s: "siteErrors (site (identity p)) = []" by (rule siteErrors_empty)
  then show "ValidationResult.errors (validate p) =
        ValidationResult.errors
          (validate (p\<lparr>identity := (identity p)\<lparr>site := ''example.com''\<rparr>\<rparr>))"
    by (simp add: validate_def Let_def identityErrors_def siteErrors_example)
  show "\<not> list_ex (\<lambda>e. startsWith e ''Identity.site'') (ValidationResult.errors (validate p))"
    using validate_no_site_error[OF s] unfolding list_ex_iff by blast
next
  show "valid (validate p) \<longleftrightarrow> ValidationResult.errors (validate p) = []"
    by (simp add: validate_def Let_def)
qed

text \<open>
  Claim C8 as stated fails on a site with a tab inside: the tab is white space, and the
  policy is reported valid, with no error.
\<close>

theorem validate_tab_site:
  "isWhiteSpace (CHR 0x09) \<and> CHR 0x09 \<in> set (site (identity tabSitePolicy)) \<and>
   valid (validate tabSitePolicy) \<and> ValidationResult.errors (validate tabSitePolicy) = []"
  by (simp add: tabSitePolicy_def validate_def identityErrors_def siteErrors_def trustErrors_def
      rateLimitErrors_def rateLimitError_def dataHandlingErrors_def enumError_def
      restrictionsErrors_def pathErrors_def agentIdentificationErrors_def
      defaultTrustRequirements_def defaultAgentIdentification_def validAuthValues_def
      trim_def isWhiteSpace_def whiteSpaceChars_def startsWith_def Let_def)

text \<open>
  The amended claim at a site that carries its scheme, and at a site with a no-break space
  inside.
\<close>

theorem validate_site_witness:
  "\<not> valid (validate schemeSitePolicy) \<and>
   ValidationResult.errors (validate schemeSitePolicy) \<noteq> [] \<and>
   valid (validate nbspSitePolicy) \<and>
   ValidationResult.errors (validate nbspSitePolicy) = []"
proof -
  have "includesStr (site (identity schemeSitePolicy)) ''://''"
    by (simp add: schemeSitePolicy_def startsWith_def)
  with validate_site[of schemeSitePolicy] have a:
    "\<not> valid (validate schemeSitePolicy) \<and> ValidationResult.errors (validate schemeSitePolicy) \<noteq> []"
    by blast
  have n: "\<not> (trim (site (identity nbspSitePolicy)) = [] \<or>
              includesStr (site (identity nbspSitePolicy)) ''://'' \<or>
              CHR '' '' \<in> set (site (identity nbspSitePolicy)))"
    by (simp add: nbspSitePolicy_def trim_def isWhiteSpace_def whiteSpaceChars_def startsWith_def)
  have e: "ValidationResult.errors
      (validate (nbspSitePolicy\<lparr>identity := (identity nbspSitePolicy)\<lparr>site := ''example.com''\<rparr>\<rparr>)) = []"
    by (simp add: nbspSitePolicy_def tabSitePolicy_def validate_def identityErrors_def siteErrors_def
      trustErrors_def rateLimitErrors_def rateLimitError_def dataHandlingErrors_def enumError_def
      restrictionsErrors_def pathErrors_def agentIdentificationErrors_def
      defaultTrustRequirements_def defaultAgentIdentification_def validAuthValues_def
      trim_def isWhiteSpace_def whiteSpaceChars_def startsWith_def Let_def)
  from validate_site[of nbspSitePolicy] n e have
    "valid (validate nbspSitePolicy) \<and> ValidationResult.errors (validate nbspSitePolicy) = []"
    by simp
  with a show ?thesis by blast
qed

section \<open>Claim C9: the lifetime of a cache entry\<close>

text \<open>
  Claim C9, as amended. The time-to-live of every cache entry is 24 hours; no max-age
  declared by the server takes part. A read less than 24 hours after the entry was
  fetched returns the entry, fetches nothing and leaves the cache as it is. Any other
  read (no entry, or an entry of 24 hours or more) returns what the refresh returns and
  nothing else: a policy, which is stored with the time of the store, or else the null
  result or the failure of the refresh, with the cache unchanged. The stale entry is
  never served.
\<close>

theorem getPolicy_ttl:
  "(cache baseUrl = Some entry \<and> now - fetchedAt entry < 24 * 60 * 60 * 1000 \<longrightarrow>
      getPolicy net cache baseUrl now now' = (Inr (Some (CacheEntry.policy entry)), cache, [])) \<and>
   (cache baseUrl = None \<or>
    (cache baseUrl = Some entry \<and> 24 * 60 * 60 * 1000 \<le> now - fetchedAt entry) \<longrightarrow>
      getPolicy net cache baseUrl now now' =
        (fst (fetchPolicy net baseUrl defaultOptions),
         (case fst (fetchPolicy net baseUrl defaultOptions) of
            Inr (Some p) \<Rightarrow> cache(baseUrl \<mapsto> \<lparr>CacheEntry.policy = p, fetchedAt = now'\<rparr>)
          | _ \<Rightarrow> cache),
         snd (fetchPolicy net baseUrl defaultOptions)))"
  by (cases "fetchPolicy net baseUrl defaultOptions")
     (auto simp: getPolicy_def refreshPolicy_def maxAgeMs_def split: sum.splits option.splits)

text \<open>
  Claim C9 as stated fails on an entry that is exactly 24 hours old when nothing can be
  fetched any more: the entry is less than one hour past its expiry, and still the read
  returns null, not the entry.
\<close>

theorem getPolicy_stale_not_served:
  "staleCache ''https://example.com'' \<noteq> None \<and>
   86400000 - fetchedAt (the (staleCache ''https://example.com'')) < 24 * 60 * 60 * 1000 + 60 * 60 * 1000 \<and>
   getPolicy emptyNetwork staleCache ''https://example.com'' 86400000 86400000 =
     (Inr None, staleCache,
      [''https://example.com/AGENTS.md'', ''https://example.com/.well-known/agents.md''])"
  by (simp add: getPolicy_def refreshPolicy_def maxAgeMs_def staleCache_def fetch_eval
      emptyNetwork_def)

text \<open>The amended claim on the same cache: one second before the 24 hours, and at them.\<close>

theorem getPolicy_ttl_witness:
  "getPolicy emptyNetwork staleCache ''https://example.com'' 86399000 86399000 =
     (Inr (Some (parse minimalFile)), staleCache, []) \<and>
   getPolicy unreachableNetwork staleCache ''https://example.com'' 86400000 86400000 =
     (Inl (Thrown connectionError), staleCache, [''https://example.com/AGENTS.md''])"
proof -
  let ?e = "\<lparr>CacheEntry.policy = parse minimalFile, fetchedAt = 0\<rparr>"
  have c: "staleCache ''https://example.com'' = Some ?e" by (simp add: staleCache_def)
  have f: "fetchPolicy unreachableNetwork ''https://example.com'' defaultOptions =
     (Inl (Thrown connectionError), [''https://example.com/AGENTS.md''])"
    by (simp add: fetch_eval unreachableNetwork_def)
  from getPolicy_ttl[of staleCache "''https://example.com''" ?e 86399000 emptyNetwork 86399000]
    getPolicy_ttl[of staleCache "''https://example.com''" ?e 86400000 unreachableNetwork 86400000]
    c f
  show ?thesis by simp
qed

section \<open>Properties of the parser of Allowed Actions\<close>

subsection \<open>The keys of a section\<close>

lemma toLowerChar_not_upper: "toLowerChar c \<notin> set upperChars"
  by (cases "map_of (zip upperChars lowerChars) c")
     (auto simp: toLowerChar_def upperChars_def lowerChars_def split: if_splits)

lemma toLowerCase_not_upper: "\<forall>c \<in> set (toLowerCase s). c \<notin> set upperChars"
  by (auto simp: toLowerCase_def toLowerChar_not_upper)

lemma dataSet_keys: "set (map fst (dataSet k v data)) = insert k (set (map fst data))"
proof (induction data)
  case Nil
  then show ?case by simp
next
  case (Cons kv data)
  obtain k' v' where kv: "kv = (k', v')" by (cases kv)
  show ?case
  proof (cases "k' = k")
    case True
    with kv show ?thesis by simp
  next
    case False
    with kv Cons.IH show ?thesis by (simp add: insert_commute)
  qed
qed

lemma dataSet_distinct: "distinct (map fst data) \<Longrightarrow> distinct (map fst (dataSet k v data))"
proof (induction data)
  case Nil
  then show ?case by simp
next
  case (Cons kv data)
  obtain k' v' where kv: "kv = (k', v')" by (cases kv)
  show ?case
  proof (cases "k' = k")
    case True
    with Cons.prems kv show ?thesis by simp
  next
    case False
    have "k' \<notin> set (map fst (dataSet k v data))"
      using Cons.prems kv False by (simp only: dataSet_keys) auto
    with Cons kv False show ?thesis by simp
  qed
qed

lemma dataSet_wellFormed:
  "wellFormedData data \<Longrightarrow> \<forall>c \<in> set k. c \<notin> set upperChars \<Longrightarrow> wellFormedData (dataSet k v data)"
  unfolding wellFormedData_def using dataSet_distinct[of data k v]
  by (simp only: dataSet_keys) auto

lemma parseKeyValueLine_wellFormed:
  "wellFormedData data \<Longrightarrow> wellFormedData (parseKeyValueLine data ln)"
  using toLowerCase_not_upper
  by (auto simp: parseKeyValueLine_def Let_def intro!: dataSet_wellFormed)

lemma foldl_parseKeyValueLine_wellFormed:
  "wellFormedData data \<Longrightarrow> wellFormedData (foldl parseKeyValueLine data lns)"
  by (induction lns arbitrary: data) (simp_all add: parseKeyValueLine_wellFormed)

lemma parseKeyValueLines_wellFormed: "wellFormedData (parseKeyValueLines lns)"
  unfolding parseKeyValueLines_def
  by (rule foldl_parseKeyValueLine_wellFormed) (simp add: wellFormedData_def)

lemma flushSection_wellFormed:
  "\<forall>name d. result st name = Some d \<longrightarrow> wellFormedData d \<Longrightarrow>
   \<forall>name d. result (flushSection st) name = Some d \<longrightarrow> wellFormedData d"
  by (auto simp: flushSection_def parseKeyValueLines_wellFormed split: option.splits if_splits)

lemma extractLine_wellFormed:
  assumes "\<forall>name d. result st name = Some d \<longrightarrow> wellFormedData d"
  shows "\<forall>name d. result (extractLine st ln) name = Some d \<longrightarrow> wellFormedData d"
proof (cases "sectionMatch ln")
  case None
  with assms show ?thesis by (simp add: extractLine_def)
next
  case (Some g)
  with flushSection_wellFormed[OF assms] show ?thesis by (simp add: extractLine_def)
qed

lemma foldl_extractLine_wellFormed:
  "\<forall>name d. result st name = Some d \<longrightarrow> wellFormedData d \<Longrightarrow>
   \<forall>name d. result (foldl extractLine st lns) name = Some d \<longrightarrow> wellFormedData d"
proof (induction lns arbitrary: st)
  case Nil
  then show ?case by simp
next
  case (Cons ln lns)
  from extractLine_wellFormed[OF Cons.prems] have
    "\<forall>name d. result (extractLine st ln) name = Some d \<longrightarrow> wellFormedData d" .
  from Cons.IH[OF this] show ?case by simp
qed

lemma extractSections_wellFormed:
  "extractSections content name = Some d \<Longrightarrow> wellFormedData d"
proof -
  let ?st = "foldl extractLine
          \<lparr>result = Map.empty, currentSectionName = None, currentSectionLines = []\<rparr>
          (splitLines content)"
  have "\<forall>name d. result ?st name = Some d \<longrightarrow> wellFormedData d"
    by (rule foldl_extractLine_wellFormed) simp
  from flushSection_wellFormed[OF this]
  show "extractSections content name = Some d \<Longrightarrow> wellFormedData d"
    by (simp add: extractSections_def)
qed

subsection \<open>The map key of a directive\<close>

lemma toUpperAZ_upper: "d \<in> set lowerAZ \<Longrightarrow> toUpperAZ d \<in> set upperAZ"
proof -
  have "\<forall>c \<in> set lowerAZ. toUpperAZ c \<in> set upperAZ"
    unfolding lowerAZ_def by (simp add: toUpperAZ_def lowerAZ_def upperAZ_def)
  then show "d \<in> set lowerAZ \<Longrightarrow> toUpperAZ d \<in> set upperAZ" by blast
qed

lemma toLowerAZ_toUpperAZ: "d \<in> set lowerAZ \<Longrightarrow> toLowerAZ (toUpperAZ d) = d"
proof -
  have "\<forall>c \<in> set lowerAZ. toLowerAZ (toUpperAZ c) = c"
    unfolding lowerAZ_def by (simp add: toUpperAZ_def toLowerAZ_def lowerAZ_def upperAZ_def)
  then show "d \<in> set lowerAZ \<Longrightarrow> toLowerAZ (toUpperAZ d) = d" by blast
qed

lemma camelToKebab_kebabToCamel:
  "\<forall>c \<in> set k. c \<notin> set upperAZ \<Longrightarrow> camelToKebab (kebabToCamel k) = k"
proof (induction k rule: kebabToCamel.induct)
  case (1 c d cs)
  show ?case
  proof (cases "c = CHR ''-'' \<and> d \<in> set lowerAZ")
    case True
    with 1 have "camelToKebab (kebabToCamel cs) = cs" by simp
    with True show ?thesis by (simp add: toUpperAZ_upper toLowerAZ_toUpperAZ)
  next
    case False
    with 1 have "camelToKebab (kebabToCamel (d # cs)) = d # cs" by simp
    with False 1(3) show ?thesis by auto
  qed
qed simp_all

lemma kebabToCamel_inject:
  assumes "\<forall>c \<in> set k. c \<notin> set upperAZ" and "\<forall>c \<in> set k'. c \<notin> set upperAZ"
    and "kebabToCamel k = kebabToCamel k'"
  shows "k = k'"
  using assms camelToKebab_kebabToCamel by metis

lemma upperAZ_upperChars: "c \<in> set upperAZ \<Longrightarrow> c \<in> set upperChars"
  by (auto simp: upperAZ_def upperChars_def)

lemma wellFormedData_key:
  "wellFormedData data \<Longrightarrow> (k, v) \<in> set data \<Longrightarrow> \<forall>c \<in> set k. c \<notin> set upperAZ"
  unfolding wellFormedData_def using upperAZ_upperChars by force

lemma wellFormedData_value:
  "wellFormedData data \<Longrightarrow> (k, v) \<in> set data \<Longrightarrow> (k, v') \<in> set data \<Longrightarrow> v' = v"
  unfolding wellFormedData_def by (meson eq_key_imp_eq_value)

text \<open>On the ten standard keys the table \<open>keyMap\<close> agrees with \<open>kebabToCamel\<close>.\<close>

lemma keyMap_kebabToCamel: "(k, c) \<in> set keyMap \<Longrightarrow> c = kebabToCamel k"
  by (auto simp: keyMap_def lowerAZ_def toUpperAZ_def upperAZ_def)

lemma keyMap_default:
  "k \<in> set (map fst keyMap) \<Longrightarrow>
   camelKeyOf k = kebabToCamel k \<and> defaultActions (camelKeyOf k) = Some (k = ''read-content'')"
  by (auto simp: keyMap_def inheritedKeys_def camelKeyOf_def defaultActions_def lowerAZ_def
      toUpperAZ_def upperAZ_def)

lemma camelKeyOf_other:
  "k \<notin> set (map fst keyMap) \<Longrightarrow> k \<notin> set (map fst inheritedKeys) \<Longrightarrow> camelKeyOf k = kebabToCamel k"
  by (auto simp: camelKeyOf_def map_of_eq_None_iff[THEN iffD2] split: option.splits)

lemma camelKeyOf_inherited:
  "k \<in> set (map fst inheritedKeys) \<Longrightarrow>
   camelKeyOf k \<notin> set (map snd keyMap) \<and> defaultActions (camelKeyOf k) = None"
  by (auto simp: keyMap_def inheritedKeys_def camelKeyOf_def defaultActions_def)

subsection \<open>What the loop of parseAllowedActions does with a directive\<close>

lemma parseBooleanValue_fst:
  "fst (parseBooleanValue raw sec key ws) = fst (parseBooleanValue raw sec' key' ws')"
  by (simp add: parseBooleanValue_def Let_def)

lemma parseBooleanValue_None:
  "fst (parseBooleanValue raw sec key ws) = None \<Longrightarrow>
   snd (parseBooleanValue raw sec key ws) =
     ws @ [warning sec (''Unrecognized boolean value '' @ quoted raw @ '' for key '' @ quoted key @
                        ''. Expected: true/false/yes/no/1/0/on/off.'')]"
  by (auto simp: parseBooleanValue_def Let_def split: if_splits)

lemma allowedActionsStep_alt:
  "allowedActionsStep (res, ws) (k, v) =
     (case fst (parseBooleanValue v ''allowed actions'' k ws) of
        None \<Rightarrow> res
      | Some b \<Rightarrow> res(camelKeyOf k \<mapsto> b),
      snd (parseBooleanValue v ''allowed actions'' k ws))"
  by (simp split: prod.splits option.splits)

lemma allowedActionsStep_unchanged:
  assumes "camelKeyOf (fst kv) = c \<longrightarrow> fst (parseBooleanValue (snd kv) ''allowed actions'' (fst kv) []) = None"
  shows "fst (allowedActionsStep acc kv) c = fst acc c"
proof -
  obtain res ws where acc: "acc = (res, ws)" by (cases acc)
  obtain k v where kv: "kv = (k, v)" by (cases kv)
  show ?thesis
  proof (cases "fst (parseBooleanValue v ''allowed actions'' k ws)")
    case None
    then show ?thesis by (simp only: acc kv allowedActionsStep_alt) simp
  next
    case (Some b)
    then have "fst (parseBooleanValue v ''allowed actions'' k []) \<noteq> None"
      using parseBooleanValue_fst[of v "''allowed actions''" k ws "''allowed actions''" k "[]"]
      by simp
    with assms kv have "camelKeyOf k \<noteq> c" by auto
    with Some show ?thesis by (simp only: acc kv allowedActionsStep_alt) simp
  qed
qed

lemma foldl_allowedActionsStep_unchanged:
  assumes "\<forall>kv \<in> set data. camelKeyOf (fst kv) = c \<longrightarrow>
             fst (parseBooleanValue (snd kv) ''allowed actions'' (fst kv) []) = None"
  shows "fst (foldl allowedActionsStep acc data) c = fst acc c"
  using assms
proof (induction data arbitrary: acc)
  case Nil
  then show ?case by simp
next
  case (Cons kv data)
  have "fst (foldl allowedActionsStep (allowedActionsStep acc kv) data) c =
        fst (allowedActionsStep acc kv) c"
    using Cons by simp
  also have "\<dots> = fst acc c"
    using Cons.prems by (intro allowedActionsStep_unchanged) simp
  finally show ?case by simp
qed

lemma allowedActionsStep_warning:
  assumes "fst (parseBooleanValue v ''allowed actions'' k []) = None"
  shows "warning ''allowed actions''
           (''Unrecognized boolean value '' @ quoted v @ '' for key '' @ quoted k @
            ''. Expected: true/false/yes/no/1/0/on/off.'')
         \<in> set (snd (allowedActionsStep acc (k, v)))"
proof -
  obtain res ws where acc: "acc = (res, ws)" by (cases acc)
  have n: "fst (parseBooleanValue v ''allowed actions'' k ws) = None"
    using assms parseBooleanValue_fst[of v "''allowed actions''" k ws "''allowed actions''" k "[]"]
    by simp
  from parseBooleanValue_None[OF n] show ?thesis
    by (simp only: acc allowedActionsStep_alt) simp
qed

lemma foldl_allowedActionsStep_warning:
  assumes "(k, v) \<in> set data" and "fst (parseBooleanValue v ''allowed actions'' k []) = None"
  shows "warning ''allowed actions''
           (''Unrecognized boolean value '' @ quoted v @ '' for key '' @ quoted k @
            ''. Expected: true/false/yes/no/1/0/on/off.'')
         \<in> set (snd (foldl allowedActionsStep acc data))"
  using assms(1)
proof (induction data arbitrary: acc)
  case Nil
  then show ?case by simp
next
  case (Cons kv data)
  show ?case
  proof (cases "kv = (k, v)")
    case True
    have "warning ''allowed actions''
           (''Unrecognized boolean value '' @ quoted v @ '' for key '' @ quoted k @
            ''. Expected: true/false/yes/no/1/0/on/off.'')
         \<in> set (snd (allowedActionsStep acc (k, v)))"
      using assms(2) by (rule allowedActionsStep_warning)
    then show ?thesis
      using foldl_allowedActionsStep_mono[of "allowedActionsStep acc (k, v)" data] True by auto
  next
    case False
    with Cons.prems have "(k, v) \<in> set data" by simp
    from Cons.IH[OF this] show ?thesis by simp
  qed
qed

lemma defaultActions_dom: "defaultActions c \<noteq> None \<Longrightarrow> c \<in> set (map snd keyMap)"
proof -
  assume "defaultActions c \<noteq> None"
  then have "c \<in> dom defaultActions" by auto
  then have "c \<in> fst ` set
     [(''readContent'', True), (''submitForms'', False), (''makePurchases'', False),
      (''modifyAccount'', False), (''accessApi'', False), (''downloadFiles'', False),
      (''uploadFiles'', False), (''sendMessages'', False), (''deleteData'', False),
      (''createContent'', False)]"
    unfolding defaultActions_def by (simp only: dom_map_of_conv_image_fst)
  then show ?thesis by (simp add: keyMap_def)
qed

lemma keyMap_keys_lower: "\<forall>k \<in> set (map fst keyMap). \<forall>c \<in> set k. c \<notin> set upperAZ"
  by (simp add: keyMap_def upperAZ_def)

lemma same_map_key:
  assumes wf: "wellFormedData data" and kv: "(k, v) \<in> set data" and kv': "(k', v') \<in> set data"
    and e: "kebabToCamel k' = kebabToCamel k"
  shows "k' = k \<and> v' = v"
proof -
  have l: "\<forall>c \<in> set k. c \<notin> set upperAZ" using wf kv by (rule wellFormedData_key)
  have l': "\<forall>c \<in> set k'. c \<notin> set upperAZ" using wf kv' by (rule wellFormedData_key)
  from l' l e have k: "k' = k" by (rule kebabToCamel_inject)
  with kv' have "(k, v') \<in> set data" by simp
  with wf kv have "v' = v" by (rule wellFormedData_value)
  with k show ?thesis by simp
qed

lemma keyMap_target: "k \<in> set (map fst keyMap) \<Longrightarrow> kebabToCamel k \<in> set (map snd keyMap)"
proof -
  assume "k \<in> set (map fst keyMap)"
  then obtain ck where ck: "(k, ck) \<in> set keyMap" by auto
  then have "ck = kebabToCamel k" by (rule keyMap_kebabToCamel)
  with ck show ?thesis by force
qed

lemma parseAllowedActions_invalid_warning:
  assumes kv: "(k, v) \<in> set data"
    and inv: "fst (parseBooleanValue v ''allowed actions'' k []) = None"
  shows "warning ''allowed actions''
           (''Unrecognized boolean value '' @ quoted v @ '' for key '' @ quoted k @
            ''. Expected: true/false/yes/no/1/0/on/off.'')
           \<in> set (snd (parseAllowedActions (Some data) ws))"
  using foldl_allowedActionsStep_warning[OF kv inv] by (simp add: parseAllowedActions_def)

lemma parseAllowedActions_invalid_standard:
  assumes wf: "wellFormedData data" and kv: "(k, v) \<in> set data"
    and inv: "fst (parseBooleanValue v ''allowed actions'' k []) = None"
    and std: "k \<in> set (map fst keyMap)"
  shows "fst (parseAllowedActions (Some data) ws) (camelKeyOf k) = Some (k = ''read-content'')"
proof -
  have kc: "camelKeyOf k = kebabToCamel k" using keyMap_default[OF std] by blast
  have dk: "defaultActions (camelKeyOf k) = Some (k = ''read-content'')"
    using keyMap_default[OF std] by blast
  have "\<forall>kv' \<in> set data. camelKeyOf (fst kv') = camelKeyOf k \<longrightarrow>
          fst (parseBooleanValue (snd kv') ''allowed actions'' (fst kv') []) = None"
  proof (intro ballI impI)
    fix kv' assume m: "kv' \<in> set data" and c: "camelKeyOf (fst kv') = camelKeyOf k"
    obtain k' v' where kv': "kv' = (k', v')" by (cases kv')
    from m kv' have m': "(k', v') \<in> set data" by simp
    from c kv' kc have c': "camelKeyOf k' = kebabToCamel k" by simp
    have e: "kebabToCamel k' = kebabToCamel k"
    proof (cases "k' \<in> set (map fst keyMap)")
      case True
      then have "camelKeyOf k' = kebabToCamel k'" using keyMap_default[of k'] by blast
      with c' show ?thesis by simp
    next
      case notstd: False
      show ?thesis
      proof (cases "k' \<in> set (map fst inheritedKeys)")
        case True
        from camelKeyOf_inherited[OF True] have "camelKeyOf k' \<notin> set (map snd keyMap)" by simp
        with keyMap_target[OF std] c' show ?thesis by simp
      next
        case False
        with notstd have "camelKeyOf k' = kebabToCamel k'" by (rule camelKeyOf_other)
        with c' show ?thesis by simp
      qed
    qed
    from same_map_key[OF wf kv m' e] have "k' = k" "v' = v" by simp_all
    with inv kv' show
      "fst (parseBooleanValue (snd kv') ''allowed actions'' (fst kv') []) = None" by simp
  qed
  from foldl_allowedActionsStep_unchanged[OF this, of "(defaultActions, ws)"]
  have "fst (parseAllowedActions (Some data) ws) (camelKeyOf k) = defaultActions (camelKeyOf k)"
    by (simp add: parseAllowedActions_def)
  with dk show ?thesis by simp
qed

lemma parseAllowedActions_invalid_custom:
  assumes wf: "wellFormedData data" and kv: "(k, v) \<in> set data"
    and inv: "fst (parseBooleanValue v ''allowed actions'' k []) = None"
    and custom: "k \<notin> set (map fst keyMap)"
    and noinh: "\<forall>k' \<in> set (map fst data). k' \<notin> set (map fst inheritedKeys)"
  shows "fst (parseAllowedActions (Some data) ws) (camelKeyOf k) = None"
proof -
  have kin: "k \<in> set (map fst data)" using kv by force
  with noinh have kninh: "k \<notin> set (map fst inheritedKeys)" by blast
  with custom have kc: "camelKeyOf k = kebabToCamel k" by (rule camelKeyOf_other)
  have camel: "camelKeyOf k' = kebabToCamel k'" if m: "k' \<in> set (map fst data)" for k'
  proof (cases "k' \<in> set (map fst keyMap)")
    case True
    then show ?thesis using keyMap_default[of k'] by blast
  next
    case False
    moreover from m noinh have "k' \<notin> set (map fst inheritedKeys)" by blast
    ultimately show ?thesis by (rule camelKeyOf_other)
  qed
  have "\<forall>kv' \<in> set data. camelKeyOf (fst kv') = camelKeyOf k \<longrightarrow>
          fst (parseBooleanValue (snd kv') ''allowed actions'' (fst kv') []) = None"
  proof (intro ballI impI)
    fix kv' assume m: "kv' \<in> set data" and c: "camelKeyOf (fst kv') = camelKeyOf k"
    obtain k' v' where kv': "kv' = (k', v')" by (cases kv')
    from m kv' have m': "(k', v') \<in> set data" by simp
    then have "k' \<in> set (map fst data)" by force
    from camel[OF this] c kc kv' have e: "kebabToCamel k' = kebabToCamel k" by simp
    from same_map_key[OF wf kv m' e] have "k' = k" "v' = v" by simp_all
    with inv kv' show
      "fst (parseBooleanValue (snd kv') ''allowed actions'' (fst kv') []) = None" by simp
  qed
  from foldl_allowedActionsStep_unchanged[OF this, of "(defaultActions, ws)"]
  have r: "fst (parseAllowedActions (Some data) ws) (camelKeyOf k) = defaultActions (camelKeyOf k)"
    by (simp add: parseAllowedActions_def)
  have "defaultActions (kebabToCamel k) = None"
  proof (rule ccontr)
    assume "defaultActions (kebabToCamel k) \<noteq> None"
    then have "kebabToCamel k \<in> set (map snd keyMap)"
      by (rule defaultActions_dom)
    then obtain k0 where k0: "(k0, kebabToCamel k) \<in> set keyMap" by auto
    then have e: "kebabToCamel k = kebabToCamel k0" by (rule keyMap_kebabToCamel)
    have k0m: "k0 \<in> set (map fst keyMap)" using k0 by force
    then have l0: "\<forall>c \<in> set k0. c \<notin> set upperAZ"
      using keyMap_keys_lower by blast
    have l: "\<forall>c \<in> set k. c \<notin> set upperAZ" using wf kv by (rule wellFormedData_key)
    from l l0 e have "k = k0" by (rule kebabToCamel_inject)
    with k0m custom show False by simp
  qed
  with r kc show ?thesis by simp
qed

lemma parseBooleanValue_None_iff:
  "fst (parseBooleanValue raw sec key ws) = None \<longleftrightarrow>
   trim (toLowerCase raw) \<notin>
     set [''true'', ''yes'', ''1'', ''on'', ''false'', ''no'', ''0'', ''off'']"
  by (simp add: parseBooleanValue_def Let_def)

lemma parse_allowedActions:
  assumes "success (parse content)"
  shows "\<exists>p ws. ParseResult.policy (parse content) = Some p \<and>
           allowedActions p =
             fst (parseAllowedActions (extractSections content ''allowed actions'') ws) \<and>
           set (snd (parseAllowedActions (extractSections content ''allowed actions'') ws))
             \<subseteq> set (ParseResult.warnings (parse content))"
proof -
  from parse_success_assemble[OF assms] obtain d i ws where
    p: "parse content = assemble (extractSections content) i ws" by blast
  let ?S = "extractSections content"
  have w: "set (snd (parseAllowedActions (?S ''allowed actions'') (warningsAfterTrust ?S ws)))
             \<subseteq> set (ParseResult.warnings (parse content))"
    using assemble_warnings_actions[of ?S ws i] by (simp add: p warningsAfterActions_def)
  obtain q where q: "ParseResult.policy (parse content) = Some q"
    and a: "allowedActions q =
       fst (parseAllowedActions (?S ''allowed actions'') (warningsAfterTrust ?S ws))"
    by (simp add: p assemble_policy warningsAfterTrust_def)
  from q a w show ?thesis by blast
qed

lemma keyMap_camelKeyOf: "(k, c) \<in> set keyMap \<Longrightarrow> camelKeyOf k = c"
proof -
  assume m: "(k, c) \<in> set keyMap"
  then have "k \<in> set (map fst keyMap)" by force
  then have "camelKeyOf k = kebabToCamel k" using keyMap_default[of k] by blast
  with keyMap_kebabToCamel[OF m] show ?thesis by simp
qed

section \<open>Claim C10: a directive of Allowed Actions with an unrecognised value\<close>

text \<open>
  Claim C10, as amended. Take a successful parse and an entry of its Allowed Actions
  section, that is a key and a value of the map that \<^verbatim>\<open>extractSections\<close> gives for the section
  (keys are lower case there, a later directive with the same key has replaced an earlier
  one, and a later section of the same name an earlier one). If the value is not one of
  the eight boolean tokens after lower-casing and trimming, then the warning for this key
  and value is among the warnings of the result, and: if the key is one of the ten
  standard keys, the policy's \<open>allowedActions\<close> binds its camel-case name to the default
  (true for \<^verbatim>\<open>read-content\<close>, false for the nine others); if the key is a custom one, and
  no key of the section is \<^verbatim>\<open>constructor\<close> or \<^verbatim>\<open>__proto__\<close>, its camel-case name is absent
  from \<open>allowedActions\<close>.
\<close>

theorem parse_allowedActions_invalid:
  assumes "success (parse content)"
    and "extractSections content ''allowed actions'' = Some data"
    and "(k, v) \<in> set data"
    and "trim (toLowerCase v) \<notin>
           set [''true'', ''yes'', ''1'', ''on'', ''false'', ''no'', ''0'', ''off'']"
  shows "\<exists>p. ParseResult.policy (parse content) = Some p \<and>
     warning ''allowed actions''
       (''Unrecognized boolean value '' @ quoted v @ '' for key '' @ quoted k @
        ''. Expected: true/false/yes/no/1/0/on/off.'')
       \<in> set (ParseResult.warnings (parse content)) \<and>
     (\<forall>camelKey. (k, camelKey) \<in> set keyMap \<longrightarrow>
        allowedActions p camelKey = defaultActions camelKey \<and>
        defaultActions camelKey = Some (k = ''read-content'')) \<and>
     (k \<notin> set (map fst keyMap) \<and>
      (\<forall>k' \<in> set (map fst data). k' \<notin> set (map fst inheritedKeys)) \<longrightarrow>
        allowedActions p (kebabToCamel k) = None)"
proof -
  from parse_allowedActions[OF assms(1)] assms(2) obtain p ws where
    p: "ParseResult.policy (parse content) = Some p" and
    a: "allowedActions p = fst (parseAllowedActions (Some data) ws)" and
    w: "set (snd (parseAllowedActions (Some data) ws)) \<subseteq> set (ParseResult.warnings (parse content))"
    by auto
  have wf: "wellFormedData data" using assms(2) by (rule extractSections_wellFormed)
  have inv: "fst (parseBooleanValue v ''allowed actions'' k []) = None"
    using assms(4) parseBooleanValue_None_iff[of v "''allowed actions''" k "[]"] by blast
  have c1: "warning ''allowed actions''
       (''Unrecognized boolean value '' @ quoted v @ '' for key '' @ quoted k @
        ''. Expected: true/false/yes/no/1/0/on/off.'')
       \<in> set (ParseResult.warnings (parse content))"
    using parseAllowedActions_invalid_warning[OF assms(3) inv, of ws] w by blast
  have c2: "\<forall>camelKey. (k, camelKey) \<in> set keyMap \<longrightarrow>
        allowedActions p camelKey = defaultActions camelKey \<and>
        defaultActions camelKey = Some (k = ''read-content'')"
  proof (intro allI impI)
    fix camelKey assume m: "(k, camelKey) \<in> set keyMap"
    then have std: "k \<in> set (map fst keyMap)" by force
    have ck: "camelKeyOf k = camelKey" using m by (rule keyMap_camelKeyOf)
    have d0: "defaultActions (camelKeyOf k) = Some (k = ''read-content'')"
      using keyMap_default[OF std] by blast
    have d: "defaultActions camelKey = Some (k = ''read-content'')"
      using d0 unfolding ck .
    have a0: "allowedActions p (camelKeyOf k) = Some (k = ''read-content'')"
      using parseAllowedActions_invalid_standard[OF wf assms(3) inv std, of ws] a by simp
    have "allowedActions p camelKey = Some (k = ''read-content'')"
      using a0 unfolding ck .
    with d show "allowedActions p camelKey = defaultActions camelKey \<and>
        defaultActions camelKey = Some (k = ''read-content'')" by simp
  qed
  have c3: "k \<notin> set (map fst keyMap) \<and>
      (\<forall>k' \<in> set (map fst data). k' \<notin> set (map fst inheritedKeys)) \<longrightarrow>
        allowedActions p (kebabToCamel k) = None"
  proof (intro impI, elim conjE)
    assume custom: "k \<notin> set (map fst keyMap)"
      and noinh: "\<forall>k' \<in> set (map fst data). k' \<notin> set (map fst inheritedKeys)"
    have "k \<in> set (map fst data)" using assms(3) by force
    with noinh have "k \<notin> set (map fst inheritedKeys)" by blast
    with custom have ck: "camelKeyOf k = kebabToCamel k" by (rule camelKeyOf_other)
    have "allowedActions p (camelKeyOf k) = None"
      using parseAllowedActions_invalid_custom[OF wf assms(3) inv custom noinh, of ws] a by simp
    then show "allowedActions p (kebabToCamel k) = None" unfolding ck .
  qed
  from p c1 c2 c3 show ?thesis by blast
qed

text \<open>
  Claim C10 as stated fails when a key comes twice: the section is a map, so the
  directive \<^verbatim>\<open>- read-content: maybe\<close> is replaced by \<^verbatim>\<open>- read-content: false\<close> before any
  value is looked at. No warning is recorded, and \<open>readContent\<close> is bound to false, which
  is not its default.
\<close>

theorem parse_duplicate_action:
  "trim (toLowerCase ''maybe'') \<notin>
     set [''true'', ''yes'', ''1'', ''on'', ''false'', ''no'', ''0'', ''off''] \<and>
   defaultActions ''readContent'' = Some True \<and>
   extractSections duplicateActionsFile ''allowed actions'' = Some [(''read-content'', ''false'')] \<and>
   success (parse duplicateActionsFile) \<and>
   ParseResult.policy (parse duplicateActionsFile) \<noteq> None \<and>
   allowedActions (the (ParseResult.policy (parse duplicateActionsFile))) ''readContent'' = Some False \<and>
   ParseResult.warnings (parse duplicateActionsFile) = []"
  unfolding duplicateActionsFile_def by code_simp

text \<open>
  The amended claim at a file with an unrecognised value for the standard key
  \<^verbatim>\<open>read-content\<close> and for the custom key \<^verbatim>\<open>x-custom\<close>.
\<close>

theorem parse_allowedActions_invalid_witness:
  "allowedActions (the (ParseResult.policy (parse invalidActionsFile))) ''readContent'' = Some True \<and>
   allowedActions (the (ParseResult.policy (parse invalidActionsFile))) ''xCustom'' = None \<and>
   warning ''allowed actions''
     (''Unrecognized boolean value '' @ quoted ''maybe'' @ '' for key '' @ quoted ''read-content'' @
      ''. Expected: true/false/yes/no/1/0/on/off.'')
     \<in> set (ParseResult.warnings (parse invalidActionsFile)) \<and>
   warning ''allowed actions''
     (''Unrecognized boolean value '' @ quoted ''maybe'' @ '' for key '' @ quoted ''x-custom'' @
      ''. Expected: true/false/yes/no/1/0/on/off.'')
     \<in> set (ParseResult.warnings (parse invalidActionsFile))"
proof -
  let ?data = "[(''read-content'', ''maybe''), (''x-custom'', ''maybe'')]"
  have s: "success (parse invalidActionsFile)"
    unfolding invalidActionsFile_def by code_simp
  have e: "extractSections invalidActionsFile ''allowed actions'' = Some ?data"
    unfolding invalidActionsFile_def by code_simp
  have n: "trim (toLowerCase ''maybe'') \<notin>
     set [''true'', ''yes'', ''1'', ''on'', ''false'', ''no'', ''0'', ''off'']"
    by code_simp
  have m1: "(''read-content'', ''maybe'') \<in> set ?data" by simp
  have m2: "(''x-custom'', ''maybe'') \<in> set ?data" by simp
  have std: "(''read-content'', ''readContent'') \<in> set keyMap" by (simp add: keyMap_def)
  have custom: "''x-custom'' \<notin> set (map fst keyMap)" by (simp add: keyMap_def)
  have noinh: "\<forall>k' \<in> set (map fst ?data). k' \<notin> set (map fst inheritedKeys)"
    by (simp add: inheritedKeys_def)
  have camel: "kebabToCamel ''x-custom'' = ''xCustom''" by code_simp
  from parse_allowedActions_invalid[OF s e m1 n] std have r1:
    "allowedActions (the (ParseResult.policy (parse invalidActionsFile))) ''readContent'' = Some True \<and>
     warning ''allowed actions''
       (''Unrecognized boolean value '' @ quoted ''maybe'' @ '' for key '' @ quoted ''read-content'' @
        ''. Expected: true/false/yes/no/1/0/on/off.'')
       \<in> set (ParseResult.warnings (parse invalidActionsFile))"
    by auto
  from parse_allowedActions_invalid[OF s e m2 n] custom noinh camel have r2:
    "allowedActions (the (ParseResult.policy (parse invalidActionsFile))) ''xCustom'' = None \<and>
     warning ''allowed actions''
       (''Unrecognized boolean value '' @ quoted ''maybe'' @ '' for key '' @ quoted ''x-custom'' @
        ''. Expected: true/false/yes/no/1/0/on/off.'')
       \<in> set (ParseResult.warnings (parse invalidActionsFile))"
    by auto
  from r1 r2 show ?thesis by blast
qed

end
